theory Spec2Isabelle
  imports Complex_Main "HOL-Library.Log_Nat"
begin

section \<open>Go strings\<close>

text \<open>
  A Go string is a sequence of bytes, here a \<open>string\<close> (a list of 8-bit characters);
  \<open>len\<close> is \<open>length\<close>. The functions of package \<open>strings\<close> that the linter and
  the scanner call are written out below, each after its documented behaviour.
\<close>

definition HasPrefix :: "string \<Rightarrow> string \<Rightarrow> bool" where
  "HasPrefix s prefix = (take (length prefix) s = prefix)"

text \<open>\<open>strings.Index\<close>: the position of the first occurrence, Go's \<open>-1\<close> being \<open>None\<close>.\<close>

fun Index :: "string \<Rightarrow> string \<Rightarrow> nat option" where
  "Index [] substr = (if substr = [] then Some 0 else None)"
| "Index (c # s) substr =
     (if HasPrefix (c # s) substr then Some 0 else map_option Suc (Index s substr))"

text \<open>\<open>strings.Contains(s, substr)\<close> is \<open>Index(s, substr) >= 0\<close>.\<close>

definition Contains :: "string \<Rightarrow> string \<Rightarrow> bool" where
  "Contains s substr = (Index s substr \<noteq> None)"

text \<open>
  \<open>strings.SplitN(s, sep, n)\<close> for a separator that is not empty (the parser passes
  \<open>"="\<close>): \<open>n = 0\<close> gives no part, \<open>n > 0\<close> at most \<open>n\<close> parts, the last one the
  unsplit rest, and \<open>n < 0\<close> every part.
\<close>

fun splitParts :: "nat \<Rightarrow> string \<Rightarrow> string \<Rightarrow> string list" where
  "splitParts 0 s sep = [s]"
| "splitParts (Suc k) s sep =
     (case Index s sep of
        None \<Rightarrow> [s]
      | Some m \<Rightarrow> take m s # splitParts k (drop (m + length sep) s) sep)"

definition SplitN :: "string \<Rightarrow> string \<Rightarrow> int \<Rightarrow> string list" where
  "SplitN s sep n =
     (if n = 0 then []
      else if n < 0 then splitParts (length s) s sep
      else splitParts (nat n - 1) s sep)"

text \<open>
  \<open>strings.TrimSpace\<close> removes leading and trailing white space as Unicode defines it
  (\<open>unicode.IsSpace\<close>). On the bytes of a string these are the six ASCII characters
  tab, line feed, vertical tab, form feed, carriage return and space, and the UTF-8
  encodings of U+0085, U+00A0, U+1680, U+2000 to U+200A, U+2028, U+2029, U+202F,
  U+205F and U+3000. Each encoding begins with a leading byte, so it is decoded as that
  code point wherever it stands at the start or at the end of the string.
\<close>

definition whiteSpace :: "string list" where
  "whiteSpace =
     [[CHR 0x09], [CHR 0x0A], [CHR 0x0B], [CHR 0x0C], [CHR 0x0D], [CHR 0x20],
      [CHR 0xC2, CHR 0x85], [CHR 0xC2, CHR 0xA0], [CHR 0xE1, CHR 0x9A, CHR 0x80],
      [CHR 0xE2, CHR 0x80, CHR 0x80], [CHR 0xE2, CHR 0x80, CHR 0x81],
      [CHR 0xE2, CHR 0x80, CHR 0x82], [CHR 0xE2, CHR 0x80, CHR 0x83],
      [CHR 0xE2, CHR 0x80, CHR 0x84], [CHR 0xE2, CHR 0x80, CHR 0x85],
      [CHR 0xE2, CHR 0x80, CHR 0x86], [CHR 0xE2, CHR 0x80, CHR 0x87],
      [CHR 0xE2, CHR 0x80, CHR 0x88], [CHR 0xE2, CHR 0x80, CHR 0x89],
      [CHR 0xE2, CHR 0x80, CHR 0x8A], [CHR 0xE2, CHR 0x80, CHR 0xA8],
      [CHR 0xE2, CHR 0x80, CHR 0xA9], [CHR 0xE2, CHR 0x80, CHR 0xAF],
      [CHR 0xE2, CHR 0x81, CHR 0x9F], [CHR 0xE3, CHR 0x80, CHR 0x80]]"

text \<open>
  Removing leading sequences: \<open>skip\<close> counts the bytes of a sequence already
  recognised that are still to be dropped.
\<close>

fun trimLeftSeqs :: "string list \<Rightarrow> nat \<Rightarrow> string \<Rightarrow> string" where
  "trimLeftSeqs ws skip [] = []"
| "trimLeftSeqs ws (Suc skip) (c # s) = trimLeftSeqs ws skip s"
| "trimLeftSeqs ws 0 (c # s) =
     (case find (\<lambda>w. w \<noteq> [] \<and> HasPrefix (c # s) w) ws of
        None \<Rightarrow> c # s
      | Some w \<Rightarrow> trimLeftSeqs ws (length w - 1) s)"

definition TrimSpace :: "string \<Rightarrow> string" where
  "TrimSpace s =
     rev (trimLeftSeqs (map rev whiteSpace) 0 (rev (trimLeftSeqs whiteSpace 0 s)))"




text \<open>
  \<open>strings.ToUpper\<close> and \<open>strings.ToLower\<close> map every code point through the Unicode
  case tables, which are not part of this development. The functions of the source that
  call them take the two mappings as arguments \<open>toUpper\<close> and \<open>toLower\<close>, so a general
  theorem holds for the library's mappings whatever they do outside ASCII. On a string of
  ASCII characters the library's mappings are the two functions below, which are used
  wherever a result is computed on a concrete ASCII input.
\<close>

definition isUpperAZ :: "char \<Rightarrow> bool" where
  "isUpperAZ c = (65 \<le> (of_char c :: nat) \<and> (of_char c :: nat) \<le> 90)"

definition isLowerAZ :: "char \<Rightarrow> bool" where
  "isLowerAZ c = (97 \<le> (of_char c :: nat) \<and> (of_char c :: nat) \<le> 122)"

definition isDigit :: "char \<Rightarrow> bool" where
  "isDigit c = (48 \<le> (of_char c :: nat) \<and> (of_char c :: nat) \<le> 57)"

definition upperChar :: "char \<Rightarrow> char" where
  "upperChar c = (if isLowerAZ c then char_of ((of_char c :: nat) - 32) else c)"

definition lowerChar :: "char \<Rightarrow> char" where
  "lowerChar c = (if isUpperAZ c then char_of ((of_char c :: nat) + 32) else c)"

definition ToUpper :: "string \<Rightarrow> string" where
  "ToUpper s = map upperChar s"

definition ToLower :: "string \<Rightarrow> string" where
  "ToLower s = map lowerChar s"

text \<open>
  The two case mappings as one argument; \<open>asciiCase\<close> is the library's behaviour on
  ASCII strings.
\<close>

record caseMaps =
  toUpper :: "string \<Rightarrow> string"
  toLower :: "string \<Rightarrow> string"

definition asciiCase :: caseMaps where
  "asciiCase = \<lparr>toUpper = ToUpper, toLower = ToLower\<rparr>"

section \<open>Variable records and issues\<close>

text \<open>
  Modelled from the spec: the declaration of \<open>env.Var\<close> (package \<open>domain/env\<close>) is not
  among the sources; the parser builds it as \<open>env.Var{Key, Value, Line}\<close> and the spec
  gives the Variable Record as a key, a value and a source line (an integer, at least 1
  for a record the parser produces).
\<close>

record Var =
  Key :: string
  Value :: string
  Line :: int

text \<open>
  \<open>issues.Issue\<close>. The fields \<open>Key\<close>, \<open>Line\<close>, \<open>Name\<close> and \<open>File\<close> of the source are
  \<open>IssueKey\<close>, \<open>LastLine\<close> (the argument \<open>ll\<close> of \<open>NewIssue\<close>), \<open>IssueName\<close> and
  \<open>IssueFile\<close> here, to keep the field names of the records of this theory apart.
\<close>

record Issue =
  IssueKey :: string
  FirstLine :: int
  LastLine :: int
  IssueName :: string
  IssueFile :: string
  Recommendations :: "string list"

definition NewIssue :: "string \<Rightarrow> string \<Rightarrow> string \<Rightarrow> int \<Rightarrow> int \<Rightarrow> string list \<Rightarrow> Issue" where
  "NewIssue name key file fl ll r =
     \<lparr>IssueKey = key, FirstLine = fl, LastLine = ll, IssueName = name, IssueFile = file,
      Recommendations = r\<rparr>"

text \<open>
  Ranging over a Go map visits every key once, in an order the runtime chooses anew for
  each loop. A function of the source whose result depends on that order takes the order
  as an argument: a list of the keys, each once.
\<close>

definition iterationOrder :: "('k \<rightharpoonup> 'v) \<Rightarrow> 'k list \<Rightarrow> bool" where
  "iterationOrder m ks = (distinct ks \<and> set ks = dom m)"

definition rangeMap :: "('k \<rightharpoonup> 'v) \<Rightarrow> 'k list \<Rightarrow> ('k \<times> 'v) list" where
  "rangeMap m ks = List.map_filter (\<lambda>k. map_option (Pair k) (m k)) ks"

section \<open>The line parser\<close>

text \<open>
  What the operating system gives the parser for a file name: \<open>os.Open\<close> fails, or the
  \<open>bufio.Scanner\<close> delivers the physical lines of the file one by one and stops at the
  end of the file or at a read error (\<open>scanner.Err()\<close>).
\<close>

datatype error = Error string

datatype fileRead = OpenFails error | Opens "string list" "error option"

record EnhancedResult =
  IssueList :: "Issue list"
  Vars :: "Var list"

definition Errorf :: "string \<Rightarrow> error \<Rightarrow> error" where
  "Errorf msg err = (case err of Error e \<Rightarrow> Error (msg @ e))"

text \<open>The body of the loop \<open>for scanner.Scan()\<close> of \<open>ParseWithIssues\<close>, one line at a time.\<close>

fun parseLines :: "string \<Rightarrow> int \<Rightarrow> string list \<Rightarrow> Issue list \<Rightarrow> Var list \<Rightarrow> Issue list \<times> Var list" where
  "parseLines filename lineNum0 [] issueList vars = (issueList, vars)"
| "parseLines filename lineNum0 (line # rest) issueList vars =
     (let lineNum = lineNum0 + 1;
          trimmedLine = TrimSpace line
      in if trimmedLine = [] \<or> HasPrefix trimmedLine ''#''
         then parseLines filename lineNum rest issueList vars
         else if \<not> Contains trimmedLine ''=''
         then parseLines filename lineNum rest
                (issueList @ [NewIssue ''malformed line'' trimmedLine filename lineNum lineNum
                   [''Each line should be in KEY=VALUE format'',
                    ''Use # for comments'',
                    ''Check for missing equals sign'']])
                vars
         else let parts = SplitN trimmedLine ''='' 2
         in if length parts \<noteq> 2
         then parseLines filename lineNum rest
                (issueList @ [NewIssue ''malformed line'' trimmedLine filename lineNum lineNum
                   [''Each line should be in KEY=VALUE format'',
                    ''Check for multiple equals signs without proper quoting'']])
                vars
         else let key = TrimSpace (parts ! 0);
                  val = TrimSpace (parts ! 1)
         in if key = []
         then parseLines filename lineNum rest
                (issueList @ [NewIssue ''empty key'' line filename lineNum lineNum
                   [''Variable names cannot be empty'',
                    ''Use descriptive variable names'']])
                vars
         else let issueList1 =
                    (if Contains key '' '' \<or> Contains key [CHR 0x09]
                     then issueList @ [NewIssue ''invalid key format'' key filename lineNum lineNum
                            [''Variable names should not contain spaces or tabs'',
                             ''Use underscores instead of spaces'',
                             ''Follow UPPER_SNAKE_CASE convention'']]
                     else issueList);
                  issueList2 =
                    (if val = []
                     then issueList1 @ [NewIssue ''empty value'' key filename lineNum lineNum
                            [''Consider if this variable should have a default value'',
                             ''Use quotes for intentionally empty strings: KEY=\"\"'',
                             ''Document why this value is empty'']]
                     else issueList1)
         in parseLines filename lineNum rest issueList2
              (vars @ [\<lparr>Key = key, Value = val, Line = lineNum\<rparr>]))"

definition ParseWithIssues :: "(string \<Rightarrow> fileRead) \<Rightarrow> string \<Rightarrow> error + EnhancedResult" where
  "ParseWithIssues fs filename =
     (case fs filename of
        OpenFails err \<Rightarrow> Inl (Errorf ''cannot open .env file: '' err)
      | Opens lines readErr \<Rightarrow>
          (case parseLines filename 0 lines [] [] of
             (issueList, vars) \<Rightarrow>
               (case readErr of
                  Some err \<Rightarrow> Inl (Errorf ''error reading file: '' err)
                | None \<Rightarrow> Inr \<lparr>IssueList = issueList, Vars = vars\<rparr>)))"

section \<open>The Duplicate rule\<close>

text \<open>The first loop of \<open>Duplicate\<close>: the map \<open>seen\<close> after the variables are read.\<close>

fun seenAfter :: "string \<Rightarrow> Var list \<Rightarrow> (string \<rightharpoonup> Issue) \<Rightarrow> (string \<rightharpoonup> Issue)" where
  "seenAfter file [] seen = seen"
| "seenAfter file (v # vars) seen =
     seenAfter file vars
       (case seen (Key v) of
          Some currentIssue \<Rightarrow>
            seen(Key v \<mapsto> NewIssue ''duplicate variable'' (Key v) file (FirstLine currentIssue) (Line v) [])
        | None \<Rightarrow>
            seen(Key v \<mapsto> NewIssue ''duplicate variable'' (Key v) file (Line v) 0 []))"

text \<open>
  The second loop ranges over \<open>seen\<close>, in the order \<open>order\<close>, and keeps the issues whose
  last line is not 0.
\<close>

definition Duplicate :: "string list \<Rightarrow> Var list \<Rightarrow> string \<Rightarrow> Issue list" where
  "Duplicate order vars file =
     filter (\<lambda>issue. LastLine issue \<noteq> 0)
       (map snd (rangeMap (seenAfter file vars Map.empty) order))"

subsection \<open>Notions used in the statements about the parser\<close>

text \<open>
  An issue that carries the recommendations of the first check of the parser (no equals
  sign) and whose subject has no equals sign.
\<close>

definition fromNoEqualsCheck :: "Issue \<Rightarrow> bool" where
  "fromNoEqualsCheck i =
     (Recommendations i =
        [''Each line should be in KEY=VALUE format'', ''Use # for comments'',
         ''Check for missing equals sign''] \<and>
      \<not> Contains (IssueKey i) ''='')"

definition malformedFromNoEquals :: "Issue \<Rightarrow> bool" where
  "malformedFromNoEquals i = (IssueName i = ''malformed line'' \<longrightarrow> fromNoEqualsCheck i)"



section \<open>The type float64\<close>

text \<open>
  A value of \<open>float64\<close> (IEEE 754 binary64) is a finite number, one of the two
  infinities, or not a number. A finite value is given by the rational number it
  stands for. The two zeros are one value here: the scanner adds, subtracts, divides
  by a count and compares, and none of these tells the two zeros apart.
\<close>

datatype float64 = Finite rat | PosInf | NegInf | NaN

text \<open>
  The binary exponent of a number other than zero: the \<open>e\<close> with
  \<open>2\<^sup>e \<le> |x| < 2\<^sup>e\<^sup>+\<^sup>1\<close> (\<open>exponentOf_bounds\<close> below). For \<open>|x| = p / q\<close> in lowest terms
  it is the difference of the bit lengths of \<open>p\<close> and \<open>q\<close>, or one less.
\<close>

definition exponentOf :: "rat \<Rightarrow> int" where
  "exponentOf x =
     (let d = bitlen (fst (quotient_of \<bar>x\<bar>)) - bitlen (snd (quotient_of \<bar>x\<bar>))
      in if 2 powi d \<le> \<bar>x\<bar> then d else d - 1)"

text \<open>The nearest integer, the even one of the two when they are equally near.\<close>

definition roundHalfEven :: "rat \<Rightarrow> int" where
  "roundHalfEven m =
     (let f = \<lfloor>m\<rfloor>; r = m - of_int f
      in if r < 1 / 2 then f else if 1 / 2 < r then f + 1 else if even f then f else f + 1)"

text \<open>
  Rounding to nearest, ties to even. The values of \<open>float64\<close> next to a number with
  exponent \<open>ex\<close> are the multiples of \<open>2\<^sup>e\<close> for \<open>e = ex - 52\<close> (a significand of 53 bits),
  and of \<open>2\<^sup>-\<^sup>1\<^sup>0\<^sup>7\<^sup>4\<close> below the normal range. The rounded magnitude reaches \<open>2\<^sup>1\<^sup>0\<^sup>2\<^sup>4\<close>, which
  gives an infinity, when the exponent is above 1023 or is 1023 and the significand is
  rounded up to \<open>2\<^sup>5\<^sup>3\<close>. A constant of the source such as \<open>0.3\<close> denotes the rounded
  value \<open>round64 (3 / 10)\<close>.
\<close>

definition round64 :: "rat \<Rightarrow> float64" where
  "round64 x =
     (if x = 0 then Finite 0
      else
        let ex = exponentOf x;
            e = max (ex - 52) (- 1074);
            n = roundHalfEven (x / 2 powi e)
        in if 1023 < ex \<or> (ex = 1023 \<and> \<bar>n\<bar> = 2 ^ 53)
           then (if 0 < x then PosInf else NegInf)
           else Finite (of_int n * 2 powi e))"

text \<open>
  The operations \<open>+\<close>, \<open>-\<close> and \<open>/\<close>: the exact result, rounded. A zero divisor is the
  positive zero (the scanner divides by a converted length only).
\<close>

fun fadd :: "float64 \<Rightarrow> float64 \<Rightarrow> float64" where
  "fadd (Finite a) (Finite b) = round64 (a + b)"
| "fadd NaN y = NaN"
| "fadd x NaN = NaN"
| "fadd PosInf NegInf = NaN"
| "fadd NegInf PosInf = NaN"
| "fadd PosInf y = PosInf"
| "fadd NegInf y = NegInf"
| "fadd x PosInf = PosInf"
| "fadd x NegInf = NegInf"

fun fneg :: "float64 \<Rightarrow> float64" where
  "fneg (Finite a) = Finite (- a)"
| "fneg PosInf = NegInf"
| "fneg NegInf = PosInf"
| "fneg NaN = NaN"

definition fsub :: "float64 \<Rightarrow> float64 \<Rightarrow> float64" where
  "fsub x y = fadd x (fneg y)"

fun fdiv :: "float64 \<Rightarrow> float64 \<Rightarrow> float64" where
  "fdiv (Finite a) (Finite b) =
     (if b = 0 then (if a = 0 then NaN else if 0 < a then PosInf else NegInf)
      else round64 (a / b))"
| "fdiv NaN y = NaN"
| "fdiv x NaN = NaN"
| "fdiv PosInf (Finite b) = (if 0 \<le> b then PosInf else NegInf)"
| "fdiv NegInf (Finite b) = (if 0 \<le> b then NegInf else PosInf)"
| "fdiv (Finite a) PosInf = Finite 0"
| "fdiv (Finite a) NegInf = Finite 0"
| "fdiv PosInf PosInf = NaN"
| "fdiv PosInf NegInf = NaN"
| "fdiv NegInf PosInf = NaN"
| "fdiv NegInf NegInf = NaN"

text \<open>
  The comparisons \<open>x <= y\<close> and \<open>x < y\<close>; \<open>x >= y\<close> is \<open>fle y x\<close> and \<open>x > y\<close> is
  \<open>flt y x\<close>. A comparison with \<open>NaN\<close> is false.
\<close>

fun fle :: "float64 \<Rightarrow> float64 \<Rightarrow> bool" where
  "fle NaN y = False"
| "fle x NaN = False"
| "fle (Finite a) (Finite b) = (a \<le> b)"
| "fle NegInf y = True"
| "fle x PosInf = True"
| "fle x y = False"

fun flt :: "float64 \<Rightarrow> float64 \<Rightarrow> bool" where
  "flt NaN y = False"
| "flt x NaN = False"
| "flt (Finite a) (Finite b) = (a < b)"
| "flt PosInf y = False"
| "flt x NegInf = False"
| "flt x y = True"

text \<open>The conversion \<open>float64(n)\<close> of an integer.\<close>

definition ofInt :: "int \<Rightarrow> float64" where
  "ofInt n = round64 (of_int n)"

section \<open>The project scanner\<close>

text \<open>
  \<open>VariablePattern\<close>. The field \<open>Pattern\<close>, a compiled regular expression of the
  library, is represented by the one method the scanner calls on it,
  \<open>FindAllStringSubmatch(line, -1)\<close>: for a line, the matches from left to right, each
  the matched text followed by the text of its capture groups. The field \<open>Name\<close> is
  \<open>PatternName\<close> here.
\<close>

record VariablePattern =
  PatternName :: string
  FindAllStringSubmatch :: "string \<Rightarrow> string list list"
  Description :: string
  Language :: string

text \<open>
  \<open>UsageResult\<close> and \<open>ScanResult\<close>, with the fields \<open>File\<close> and \<open>Line\<close> of a usage as
  \<open>UsageFile\<close> and \<open>UsageLine\<close>.
\<close>

record UsageResult =
  Variable :: string
  UsageFile :: string
  UsageLine :: int
  Context :: string
  Pattern :: string
  Confidence :: float64

record ScanResult =
  Variables :: "string \<rightharpoonup> UsageResult list"
  Files :: "string list"
  Errors :: "error list"

record ProjectScanner =
  patterns :: "VariablePattern list"
  excludePaths :: "string list"
  includeExts :: "string list"

subsection \<open>The confidence heuristic\<close>

definition commonEnvVars :: "string list" where
  "commonEnvVars =
     [''PORT'', ''HOST'', ''DATABASE_URL'', ''API_KEY'', ''SECRET_KEY'',
      ''NODE_ENV'', ''ENVIRONMENT'', ''DEBUG'', ''LOG_LEVEL'', ''TIMEOUT'']"

text \<open>The loop over \<open>commonEnvVars\<close>: the first name found adds 0.2 and ends the loop.\<close>

fun commonLoop :: "string \<Rightarrow> string list \<Rightarrow> float64 \<Rightarrow> float64" where
  "commonLoop upperName [] confidence = confidence"
| "commonLoop upperName (common # rest) confidence =
     (if Contains upperName common then fadd confidence (round64 (2 / 10))
      else commonLoop upperName rest confidence)"

definition calculateConfidence ::
  "caseMaps \<Rightarrow> string \<Rightarrow> string \<Rightarrow> VariablePattern \<Rightarrow> float64" where
  "calculateConfidence cm varName line pattern =
     (let confidence0 = round64 (5 / 10);
          confidence1 =
            (if toUpper cm varName = varName \<and> length varName > 1
             then fadd confidence0 (round64 (3 / 10)) else confidence0);
          confidence2 =
            (if Contains varName ''_'' then fadd confidence1 (round64 (2 / 10))
             else confidence1);
          confidence3 =
            (if length varName \<le> 2 then fsub confidence2 (round64 (3 / 10))
             else confidence2);
          confidence4 = commonLoop (toUpper cm varName) commonEnvVars confidence3;
          lowerLine = toLower cm line;
          confidence5 =
            (if Contains lowerLine ''process.env'' \<or>
                Contains lowerLine ''os.getenv'' \<or>
                Contains lowerLine ''os.environ'' \<or>
                Contains lowerLine ''$env:'' \<or>
                Contains lowerLine ''${''
             then fadd confidence4 (round64 (2 / 10)) else confidence4);
          confidence6 = (if flt (round64 1) confidence5 then round64 1 else confidence5);
          confidence7 = (if flt confidence6 (round64 0) then round64 0 else confidence6)
      in confidence7)"

subsection \<open>Scanning one file\<close>

text \<open>
  \<open>result.Variables[varName] = append(result.Variables[varName], usage)\<close>: a key that is
  absent reads as the empty slice.
\<close>

definition usagesOf :: "(string \<rightharpoonup> UsageResult list) \<Rightarrow> string \<Rightarrow> UsageResult list" where
  "usagesOf vars varName = (case vars varName of None \<Rightarrow> [] | Some usages \<Rightarrow> usages)"

fun scanMatches ::
  "caseMaps \<Rightarrow> string \<Rightarrow> int \<Rightarrow> string \<Rightarrow> VariablePattern \<Rightarrow> string list list \<Rightarrow>
   (string \<rightharpoonup> UsageResult list) \<Rightarrow> (string \<rightharpoonup> UsageResult list)" where
  "scanMatches cm filePath lineNum line pattern [] vars = vars"
| "scanMatches cm filePath lineNum line pattern (match # matches) vars =
     (if length match < 2 then scanMatches cm filePath lineNum line pattern matches vars
      else
        let varName = match ! 1;
            confidence = calculateConfidence cm varName line pattern;
            usage = \<lparr>Variable = varName, UsageFile = filePath, UsageLine = lineNum,
                     Context = TrimSpace line, Pattern = PatternName pattern,
                     Confidence = confidence\<rparr>
        in scanMatches cm filePath lineNum line pattern matches
             (vars(varName \<mapsto> usagesOf vars varName @ [usage])))"

fun scanPatterns ::
  "caseMaps \<Rightarrow> string \<Rightarrow> int \<Rightarrow> string \<Rightarrow> VariablePattern list \<Rightarrow>
   (string \<rightharpoonup> UsageResult list) \<Rightarrow> (string \<rightharpoonup> UsageResult list)" where
  "scanPatterns cm filePath lineNum line [] vars = vars"
| "scanPatterns cm filePath lineNum line (pattern # rest) vars =
     scanPatterns cm filePath lineNum line rest
       (scanMatches cm filePath lineNum line pattern (FindAllStringSubmatch pattern line) vars)"

fun scanLines ::
  "caseMaps \<Rightarrow> ProjectScanner \<Rightarrow> string \<Rightarrow> int \<Rightarrow> string list \<Rightarrow>
   (string \<rightharpoonup> UsageResult list) \<Rightarrow> (string \<rightharpoonup> UsageResult list)" where
  "scanLines cm ps filePath lineNum0 [] vars = vars"
| "scanLines cm ps filePath lineNum0 (line # rest) vars =
     (let lineNum = lineNum0 + 1
      in scanLines cm ps filePath lineNum rest
           (scanPatterns cm filePath lineNum line (patterns ps) vars))"

definition scanFile ::
  "caseMaps \<Rightarrow> ProjectScanner \<Rightarrow> (string \<Rightarrow> fileRead) \<Rightarrow> string \<Rightarrow> error + ScanResult" where
  "scanFile cm ps fs filePath =
     (case fs filePath of
        OpenFails err \<Rightarrow> Inl err
      | Opens lines readErr \<Rightarrow>
          Inr \<lparr>Variables = scanLines cm ps filePath 0 lines Map.empty,
               Files = [filePath],
               Errors = (case readErr of None \<Rightarrow> [] | Some err \<Rightarrow> [err])\<rparr>)"

subsection \<open>Walking the tree\<close>

text \<open>
  \<open>filepath.Ext\<close> and \<open>filepath.Base\<close>, for the separator \<open>/\<close>. The final element of a
  path is what follows its last separator.
\<close>

definition finalElement :: "string \<Rightarrow> string" where
  "finalElement path = rev (takeWhile (\<lambda>c. c \<noteq> CHR ''/'') (rev path))"

definition Ext :: "string \<Rightarrow> string" where
  "Ext path =
     (let e = finalElement path
      in if CHR ''.'' \<in> set e then CHR ''.'' # rev (takeWhile (\<lambda>c. c \<noteq> CHR ''.'') (rev e))
         else [])"

definition Base :: "string \<Rightarrow> string" where
  "Base path =
     (if path = [] then ''.''
      else let p = rev (dropWhile (\<lambda>c. c = CHR ''/'') (rev path))
           in if p = [] then ''/'' else finalElement p)"

fun shouldScanLoop :: "string \<Rightarrow> string \<Rightarrow> string list \<Rightarrow> bool" where
  "shouldScanLoop fileName ext [] = False"
| "shouldScanLoop fileName ext (include # rest) =
     (if fileName = include \<or> ext = include then True
      else shouldScanLoop fileName ext rest)"

definition shouldScanFile :: "ProjectScanner \<Rightarrow> string \<Rightarrow> bool" where
  "shouldScanFile ps path = shouldScanLoop (Base path) (Ext path) (includeExts ps)"

text \<open>
  What \<open>filepath.Walk\<close> finds at a path: \<open>Lstat\<close> fails, or the path is a file, or a
  directory whose names cannot be read, or a directory with its entries in lexical
  order. Every node carries the path that \<open>Walk\<close> passes to the function for it (the
  root, or the directory's path joined with the entry's name).
\<close>

datatype fsnode =
    LstatFails string error
  | RegularFile string
  | UnreadableDir string error
  | Dir string "fsnode list"

fun isDir :: "fsnode \<Rightarrow> bool" where
  "isDir (UnreadableDir path err) = True"
| "isDir (Dir path entries) = True"
| "isDir node = False"

text \<open>
  \<open>Walk\<close> calls the function as \<open>fn(path, info, nil)\<close>, where \<open>info.IsDir()\<close> tells a
  directory from a file (\<open>Visit\<close>), or as \<open>fn(path, info, err)\<close> with an error
  (\<open>VisitError\<close>). The function answers \<open>nil\<close>, \<open>SkipDir\<close>, \<open>SkipAll\<close> or another error.
\<close>

datatype walkEvent = Visit bool | VisitError error

datatype walkError = SkipDir | SkipAll | OtherError error

type_synonym 's WalkFunc = "string \<Rightarrow> walkEvent \<Rightarrow> 's \<Rightarrow> walkError option \<times> 's"

text \<open>
  The library's \<open>walk\<close>: a file is visited; a directory is visited with the error of
  reading its names, if any, and is left when that error or the function's answer is
  not \<open>nil\<close>; otherwise its entries are walked in order. An entry whose \<open>Lstat\<close> fails is
  visited with the error; the walk of the directory ends at an answer that is not \<open>nil\<close>,
  except \<open>SkipDir\<close> for such an entry or from a directory.
\<close>

fun walk :: "'s WalkFunc \<Rightarrow> fsnode \<Rightarrow> 's \<Rightarrow> walkError option \<times> 's"
  and walkNames :: "'s WalkFunc \<Rightarrow> fsnode list \<Rightarrow> 's \<Rightarrow> walkError option \<times> 's" where
  "walk fn (LstatFails path err) s = fn path (VisitError err) s"
| "walk fn (RegularFile path) s = fn path (Visit False) s"
| "walk fn (UnreadableDir path err) s = fn path (VisitError err) s"
| "walk fn (Dir path entries) s =
     (case fn path (Visit True) s of
        (Some err1, s1) \<Rightarrow> (Some err1, s1)
      | (None, s1) \<Rightarrow> walkNames fn entries s1)"
| "walkNames fn [] s = (None, s)"
| "walkNames fn (LstatFails path err # rest) s =
     (case fn path (VisitError err) s of
        (Some e, s1) \<Rightarrow> if e \<noteq> SkipDir then (Some e, s1) else walkNames fn rest s1
      | (None, s1) \<Rightarrow> walkNames fn rest s1)"
| "walkNames fn (entry # rest) s =
     (case walk fn entry s of
        (Some e, s1) \<Rightarrow>
          if \<not> isDir entry \<or> e \<noteq> SkipDir then (Some e, s1) else walkNames fn rest s1
      | (None, s1) \<Rightarrow> walkNames fn rest s1)"

definition Walk :: "'s WalkFunc \<Rightarrow> fsnode \<Rightarrow> 's \<Rightarrow> walkError option \<times> 's" where
  "Walk fn rootNode s =
     (case walk fn rootNode s of
        (Some SkipDir, s1) \<Rightarrow> (None, s1)
      | (Some SkipAll, s1) \<Rightarrow> (None, s1)
      | (err, s1) \<Rightarrow> (err, s1))"

subsection \<open>Scanning a project\<close>

definition ErrorfPath :: "string \<Rightarrow> string \<Rightarrow> error \<Rightarrow> error" where
  "ErrorfPath what path err = (case err of Error e \<Rightarrow> Error (what @ path @ '': '' @ e))"

text \<open>
  The loop that merges the variables of a file into the result. Each pass reads and
  writes the one key it visits, so the order of the passes does not matter
  (\<open>mergeLoop_mergeVariables\<close> below).
\<close>

definition mergeVariables ::
  "(string \<rightharpoonup> UsageResult list) \<Rightarrow> (string \<rightharpoonup> UsageResult list) \<Rightarrow>
   (string \<rightharpoonup> UsageResult list)" where
  "mergeVariables resultVars fileVars =
     (\<lambda>varName. case fileVars varName of
        None \<Rightarrow> resultVars varName
      | Some usages \<Rightarrow> Some (usagesOf resultVars varName @ usages))"

fun mergeLoop ::
  "(string \<times> UsageResult list) list \<Rightarrow> (string \<rightharpoonup> UsageResult list) \<Rightarrow>
   (string \<rightharpoonup> UsageResult list)" where
  "mergeLoop [] resultVars = resultVars"
| "mergeLoop ((varName, usages) # rest) resultVars =
     mergeLoop rest (resultVars(varName \<mapsto> usagesOf resultVars varName @ usages))"

text \<open>The function that \<open>ScanProject\<close> passes to \<open>filepath.Walk\<close>.\<close>

definition visit ::
  "caseMaps \<Rightarrow> ProjectScanner \<Rightarrow> (string \<Rightarrow> fileRead) \<Rightarrow> ScanResult WalkFunc" where
  "visit cm ps fs path event result =
     (case event of
        VisitError err \<Rightarrow>
          (None, result\<lparr>Errors := Errors result @ [ErrorfPath ''error accessing '' path err]\<rparr>)
      | Visit True \<Rightarrow>
          (if list_ex (\<lambda>exclude. Contains path exclude) (excludePaths ps)
           then (Some SkipDir, result) else (None, result))
      | Visit False \<Rightarrow>
          (if \<not> shouldScanFile ps path then (None, result)
           else
             (case scanFile cm ps fs path of
                Inl err \<Rightarrow>
                  (None,
                   result\<lparr>Errors := Errors result @ [ErrorfPath ''error scanning '' path err]\<rparr>)
              | Inr fileResult \<Rightarrow>
                  (None,
                   result\<lparr>Files := Files result @ [path],
                          Variables := mergeVariables (Variables result) (Variables fileResult)\<rparr>))))"

definition ScanProject ::
  "caseMaps \<Rightarrow> ProjectScanner \<Rightarrow> (string \<Rightarrow> fileRead) \<Rightarrow> fsnode \<Rightarrow> ScanResult \<times> walkError option" where
  "ScanProject cm ps fs rootNode =
     (case Walk (visit cm ps fs) rootNode \<lparr>Variables = Map.empty, Files = [], Errors = []\<rparr> of
        (err, result) \<Rightarrow> (result, err))"

subsection \<open>The confidence aggregator\<close>

text \<open>
  The loop of \<open>GetRequiredVariables\<close> over the map, in the order \<open>order\<close>. The sum
  starts from \<open>0.0\<close> and adds the confidences in the order of the usages, rounding after
  each addition; the quotient \<open>0.0 / 0.0\<close> of an empty usage list is not a number and
  fails the comparison.
\<close>

fun requiredLoop ::
  "float64 \<Rightarrow> int \<Rightarrow> (string \<times> UsageResult list) list \<Rightarrow> string list \<Rightarrow> string list" where
  "requiredLoop minConfidence minUsages [] required = required"
| "requiredLoop minConfidence minUsages ((varName, usages) # rest) required =
     (if int (length usages) < minUsages
      then requiredLoop minConfidence minUsages rest required
      else
        let totalConfidence =
              foldl (\<lambda>total usage. fadd total (Confidence usage)) (round64 0) usages;
            avgConfidence = fdiv totalConfidence (ofInt (int (length usages)))
        in if fle minConfidence avgConfidence
           then requiredLoop minConfidence minUsages rest (required @ [varName])
           else requiredLoop minConfidence minUsages rest required)"

definition GetRequiredVariables ::
  "string list \<Rightarrow> ScanResult \<Rightarrow> float64 \<Rightarrow> int \<Rightarrow> string list" where
  "GetRequiredVariables order sr minConfidence minUsages =
     requiredLoop minConfidence minUsages (rangeMap (Variables sr) order) []"

subsection \<open>Notions used in the statements about the scanner\<close>

definition clamp01 :: "rat \<Rightarrow> rat" where
  "clamp01 x = max 0 (min 1 x)"

definition contextMarkers :: "string list" where
  "contextMarkers = [''process.env'', ''os.getenv'', ''os.environ'', ''$env:'', ''${'']"

text \<open>
  The sum of the confidence heuristic in exact arithmetic, before it is cut to the
  interval from 0 to 1.
\<close>

definition confidenceSum :: "caseMaps \<Rightarrow> string \<Rightarrow> string \<Rightarrow> rat" where
  "confidenceSum cm varName line =
     5 / 10
     + (if toUpper cm varName = varName \<and> 1 < length varName then 3 / 10 else 0)
     + (if Contains varName ''_'' then 2 / 10 else 0)
     - (if length varName \<le> 2 then 3 / 10 else 0)
     + (if \<exists>common\<in>set commonEnvVars. Contains (toUpper cm varName) common then 2 / 10 else 0)
     + (if \<exists>marker\<in>set contextMarkers. Contains (toLower cm line) marker then 2 / 10 else 0)"

text \<open>
  The confidence as a function of the outcomes of the five tests of the heuristic, in
  the order of the source: all upper case and longer than one character, an underscore,
  at most two characters, a common name, a contextual marker.
\<close>

definition confidenceFor :: "bool \<Rightarrow> bool \<Rightarrow> bool \<Rightarrow> bool \<Rightarrow> bool \<Rightarrow> float64" where
  "confidenceFor allCaps underscore short common context =
     (let confidence0 = round64 (5 / 10);
          confidence1 = (if allCaps then fadd confidence0 (round64 (3 / 10)) else confidence0);
          confidence2 = (if underscore then fadd confidence1 (round64 (2 / 10)) else confidence1);
          confidence3 = (if short then fsub confidence2 (round64 (3 / 10)) else confidence2);
          confidence4 = (if common then fadd confidence3 (round64 (2 / 10)) else confidence3);
          confidence5 = (if context then fadd confidence4 (round64 (2 / 10)) else confidence4);
          confidence6 = (if flt (round64 1) confidence5 then round64 1 else confidence5);
          confidence7 = (if flt confidence6 (round64 0) then round64 0 else confidence6)
      in confidence7)"

text \<open>
  The mean confidence of a list of usages as the aggregator computes it in \<open>float64\<close>:
  the confidences are added in order from \<open>0.0\<close>, each sum rounded, and the total is
  divided by the converted number of usages, the quotient rounded.
\<close>

definition float64Mean :: "UsageResult list \<Rightarrow> float64" where
  "float64Mean usages =
     fdiv (foldl fadd (round64 0) (map Confidence usages)) (ofInt (int (length usages)))"

definition qualifies :: "float64 \<Rightarrow> int \<Rightarrow> UsageResult list \<Rightarrow> bool" where
  "qualifies minConfidence minUsages usages =
     (minUsages \<le> int (length usages) \<and> fle minConfidence (float64Mean usages))"

text \<open>
  The arithmetic mean, in exact arithmetic, of confidences that are finite numbers
  (the value taken for a confidence that is not finite plays no part below).
\<close>

fun finiteValue :: "float64 \<Rightarrow> rat" where
  "finiteValue (Finite r) = r"
| "finiteValue x = 0"

definition arithmeticMean :: "UsageResult list \<Rightarrow> rat" where
  "arithmeticMean usages =
     sum_list (map (\<lambda>usage. finiteValue (Confidence usage)) usages) / of_nat (length usages)"

text \<open>Every usage record of a map of variables carries the key it is stored under.\<close>

definition bucketsMatch :: "(string \<rightharpoonup> UsageResult list) \<Rightarrow> bool" where
  "bucketsMatch vars =
     (\<forall>varName usages. vars varName = Some usages \<longrightarrow>
        (\<forall>usage\<in>set usages. Variable usage = varName))"

subsection \<open>Example data\<close>

text \<open>
  The pattern \<open>Go os.Getenv\<close> of the source, with the matches of its regular expression
  on the one line that the examples scan (on that line it matches once, capturing
  \<open>PORT\<close>).
\<close>

definition goGetenv :: VariablePattern where
  "goGetenv =
     \<lparr>PatternName = ''Go os.Getenv'',
      FindAllStringSubmatch =
        (\<lambda>line. if line = ''port := os.Getenv(\"PORT\")''
                then [[''os.Getenv(\"PORT\")'', ''PORT'']] else []),
      Description = ''Go os.Getenv() calls'', Language = ''go''\<rparr>"

text \<open>A scanner with the excluded paths and the extensions of \<open>NewProjectScanner\<close>.\<close>

definition exampleScanner :: ProjectScanner where
  "exampleScanner =
     \<lparr>patterns = [goGetenv],
      excludePaths = [''node_modules'', ''vendor'', ''dist'', ''build'', ''.git'',
                      ''target'', ''bin'', ''obj'', ''.next'', ''.nuxt''],
      includeExts = [''.go'', ''.js'', ''.ts'', ''.jsx'', ''.tsx'', ''.py'', ''.java'',
                     ''.rb'', ''.php'', ''.cs'', ''.cpp'', ''.c'', ''.rs'', ''.kt'',
                     ''.scala'', ''.sh'', ''.bash'', ''.zsh'', ''.fish'', ''.ps1'',
                     ''.yml'', ''.yaml'', ''.json'', ''.toml'', ''.ini'', ''.conf'',
                     ''.dockerfile'', ''Dockerfile'', ''.env'', ''.env.example'']\<rparr>"

definition tooLong :: error where
  "tooLong = Error ''bufio.Scanner: token too long''"

definition denied :: error where
  "denied = Error ''permission denied''"

text \<open>
  Files of the example project: \<open>proj/main.go\<close> has a first line that calls
  \<open>os.Getenv\<close> and a second line longer than the scanner's buffer, so reading stops with
  \<open>bufio.ErrTooLong\<close>; \<open>proj/util.go\<close> has the one line; every other file cannot be
  opened.
\<close>

definition exampleFiles :: "string \<Rightarrow> fileRead" where
  "exampleFiles path =
     (if path = ''proj/main.go'' then Opens [''port := os.Getenv(\"PORT\")''] (Some tooLong)
      else if path = ''proj/util.go'' then Opens [''port := os.Getenv(\"PORT\")''] None
      else OpenFails denied)"

definition portUsage :: "string \<Rightarrow> UsageResult" where
  "portUsage path =
     \<lparr>Variable = ''PORT'', UsageFile = path, UsageLine = 1,
      Context = ''port := os.Getenv(\"PORT\")'', Pattern = ''Go os.Getenv'',
      Confidence = Finite 1\<rparr>"

definition exampleUsage :: "string \<Rightarrow> float64 \<Rightarrow> UsageResult" where
  "exampleUsage varName c =
     \<lparr>Variable = varName, UsageFile = ''main.go'', UsageLine = 1, Context = ''x'',
      Pattern = ''Go os.Getenv'', Confidence = c\<rparr>"

definition exampleResult :: ScanResult where
  "exampleResult =
     \<lparr>Variables =
        [''PORT'' \<mapsto> [exampleUsage ''PORT'' (Finite 1), exampleUsage ''PORT'' (Finite (1 / 2))],
         ''DB'' \<mapsto> [exampleUsage ''DB'' (Finite (1 / 2))],
         ''X'' \<mapsto> [exampleUsage ''X'' (Finite (1 / 4)), exampleUsage ''X'' (Finite (1 / 4))]],
      Files = [''main.go''], Errors = []\<rparr>"

text \<open>
  The pattern \<open>Shell variable expansion\<close> of the source, with the matches of its regular expression
  on the line \<open>echo ${A_}\<close>.
\<close>

definition shellBraces :: VariablePattern where
  "shellBraces =
     \<lparr>PatternName = ''Shell variable expansion'',
      FindAllStringSubmatch =
        (\<lambda>line. if line = ''echo ${A_}'' then [[''${A_}'', ''A_'']] else []),
      Description = ''Shell ${VAR} expansion'', Language = ''shell''\<rparr>"

text \<open>
  The pattern \<open>Node.js process.env\<close> of the source, with the matches of its regular
  expression on the line \<open>const ci = process.env.CI\<close>, and a project \<open>app\<close> whose one
  file \<open>app/ci.js\<close> has that line three times.
\<close>

definition nodeProcessEnv :: VariablePattern where
  "nodeProcessEnv =
     \<lparr>PatternName = ''Node.js process.env'',
      FindAllStringSubmatch =
        (\<lambda>line. if line = ''const ci = process.env.CI''
                then [[''process.env.CI'', ''CI'']] else []),
      Description = ''Node.js process.env access'', Language = ''javascript''\<rparr>"

definition nodeScanner :: ProjectScanner where
  "nodeScanner = exampleScanner\<lparr>patterns := [nodeProcessEnv]\<rparr>"

definition nodeFiles :: "string \<Rightarrow> fileRead" where
  "nodeFiles path =
     (if path = ''app/ci.js''
      then Opens [''const ci = process.env.CI'', ''const ci = process.env.CI'',
                  ''const ci = process.env.CI''] None
      else OpenFails denied)"

definition ciUsage :: "int \<Rightarrow> UsageResult" where
  "ciUsage lineNum =
     \<lparr>Variable = ''CI'', UsageFile = ''app/ci.js'', UsageLine = lineNum,
      Context = ''const ci = process.env.CI'', Pattern = ''Node.js process.env'',
      Confidence = Finite (3152519739159347 / 4503599627370496)\<rparr>"

definition ciResult :: ScanResult where
  "ciResult =
     \<lparr>Variables = [''CI'' \<mapsto> [ciUsage 1, ciUsage 2, ciUsage 3]], Files = [''app/ci.js''],
      Errors = []\<rparr>"

section \<open>The Security rule\<close>

























section \<open>The Convention rule\<close>






text \<open>
  \<open>re1.ReplaceAllString(s, "${1}_${2}")\<close> for \<open>([a-z0-9])([A-Z])\<close> and
  \<open>re2.ReplaceAllString(s, "${1}_${2}")\<close> for \<open>([A-Z])([A-Z][a-z])\<close>: the matches are
  taken from left to right without overlap, and the text between them is copied.
\<close>

fun insertAfterLower :: "string \<Rightarrow> string" where
  "insertAfterLower (a # b # s) =
     (if (isLowerAZ a \<or> isDigit a) \<and> isUpperAZ b
      then a # CHR ''_'' # b # insertAfterLower s
      else a # insertAfterLower (b # s))"
| "insertAfterLower s = s"

fun insertInAcronym :: "string \<Rightarrow> string" where
  "insertInAcronym (a # b # c # s) =
     (if isUpperAZ a \<and> isUpperAZ b \<and> isLowerAZ c
      then a # CHR ''_'' # b # c # insertInAcronym s
      else a # insertInAcronym (b # c # s))"
| "insertInAcronym s = s"

definition convertCamelToSnake :: "caseMaps \<Rightarrow> string \<Rightarrow> string" where
  "convertCamelToSnake cm s = toLower cm (insertInAcronym (insertAfterLower s))"













section \<open>Properties of the parser and of the Duplicate rule\<close>

lemma SplitN_two_parts:
  "Contains t sep \<Longrightarrow> length (SplitN t sep 2) = 2"
  by (auto simp: SplitN_def Contains_def)

lemma parseLines_malformed:
  "list_all malformedFromNoEquals issueList \<Longrightarrow>
   list_all malformedFromNoEquals (fst (parseLines filename n lines issueList vars))"
  by (induction lines arbitrary: n issueList vars)
     (simp_all add: Let_def SplitN_two_parts malformedFromNoEquals_def fromNoEqualsCheck_def
        NewIssue_def)

lemma parseLines_lines_positive:
  "0 \<le> n \<Longrightarrow> list_all (\<lambda>v. 1 \<le> Line v) vars \<Longrightarrow>
   list_all (\<lambda>v. 1 \<le> Line v) (snd (parseLines filename n lines issueList vars))"
  by (induction lines arbitrary: n issueList vars) (simp_all add: Let_def)

text \<open>The records of a parser result have source lines from 1 on.\<close>

lemma ParseWithIssues_lines_positive:
  assumes "ParseWithIssues fs filename = Inr r"
  shows "\<forall>v\<in>set (Vars r). 1 \<le> Line v"
proof -
  from assms have "\<exists>lines. Vars r = snd (parseLines filename 0 lines [] [])"
    by (auto simp: ParseWithIssues_def split: fileRead.splits prod.splits option.splits)
       (metis snd_conv)
  then obtain lines where "Vars r = snd (parseLines filename 0 lines [] [])" ..
  then show ?thesis
    using parseLines_lines_positive[of 0 "[]" filename lines "[]"]
    by (simp add: list_all_iff)
qed

lemma seenAfter_lookup:
  "seenAfter file vars seen k =
     (case filter (\<lambda>v. Key v = k) vars of
        [] \<Rightarrow> seen k
      | v # occ \<Rightarrow>
          Some (NewIssue ''duplicate variable'' k file
                  (case seen k of Some i \<Rightarrow> FirstLine i | None \<Rightarrow> Line v)
                  (if seen k = None \<and> occ = [] then 0 else Line (last (v # occ))) []))"
proof (induction vars arbitrary: seen)
  case Nil
  then show ?case by simp
next
  case (Cons a vars)
  show ?case
    by (cases "seen (Key a)"; cases "Key a = k"; cases "filter (\<lambda>v. Key v = k) vars")
       (simp_all add: Cons.IH NewIssue_def)
qed

lemma seenAfter_empty:
  "seenAfter file vars Map.empty k =
     (case filter (\<lambda>v. Key v = k) vars of
        [] \<Rightarrow> None
      | v # occ \<Rightarrow>
          Some (NewIssue ''duplicate variable'' k file (Line v)
                  (if occ = [] then 0 else Line (last (v # occ))) []))"
  by (simp add: seenAfter_lookup split: list.splits)


text \<open>The keys of \<open>seen\<close> are the keys of the variables, so an iteration order exists.\<close>

lemma seenAfter_iterationOrder:
  "iterationOrder (seenAfter file vars Map.empty) (remdups (map Key vars))"
proof -
  have "k \<in> dom (seenAfter file vars Map.empty) \<longleftrightarrow> k \<in> Key ` set vars" for k
  proof -
    have "filter (\<lambda>v. Key v = k) vars \<noteq> [] \<longleftrightarrow> k \<in> Key ` set vars"
      by (auto simp: filter_empty_conv)
    then show ?thesis
      by (auto simp: dom_def seenAfter_empty split: list.splits)
  qed
  then show ?thesis
    by (auto simp: iterationOrder_def)
qed





text \<open>
  The rule tells a key seen once from a repeated key by the last line 0, so a repeated
  key whose last occurrence carries line 0 is not reported. Records with line 0 are
  outside the data model: the parser numbers lines from 1
  (\<open>ParseWithIssues_lines_positive\<close>).
\<close>

lemma Duplicate_line_zero:
  "Duplicate [''K''] [\<lparr>Key = ''K'', Value = ''a'', Line = 3\<rparr>, \<lparr>Key = ''K'', Value = ''b'', Line = 0\<rparr>]
     file = []"
  by (simp add: Duplicate_def rangeMap_def List.map_filter_simps NewIssue_def)





text \<open>
  C10. In \<open>ParseWithIssues\<close>, a trimmed line that contains an equals sign is split by
  \<open>SplitN(trimmed, "=", 2)\<close> into exactly two parts, so the branch for a split that does
  not give two parts is never taken: every issue named \<open>malformed line\<close> in a result of
  the parser carries the recommendations of the check for a missing equals sign, and
  its subject contains no equals sign.
\<close>

theorem ParseWithIssues_malformed_only_without_equals:
  "(Contains (TrimSpace line) ''='' \<longrightarrow> length (SplitN (TrimSpace line) ''='' 2) = 2) \<and>
   (ParseWithIssues fs filename = Inr r \<longrightarrow>
      (\<forall>i\<in>set (IssueList r). IssueName i = ''malformed line'' \<longrightarrow> fromNoEqualsCheck i))"
proof (intro conjI impI)
  assume "Contains (TrimSpace line) ''=''"
  then show "length (SplitN (TrimSpace line) ''='' 2) = 2"
    by (rule SplitN_two_parts)
next
  assume r: "ParseWithIssues fs filename = Inr r"
  then have "\<exists>lines. IssueList r = fst (parseLines filename 0 lines [] [])"
    by (auto simp: ParseWithIssues_def split: fileRead.splits prod.splits option.splits)
       (metis fst_conv)
  then obtain lines where "IssueList r = fst (parseLines filename 0 lines [] [])" ..
  moreover have "list_all malformedFromNoEquals (fst (parseLines filename 0 lines [] []))"
    by (rule parseLines_malformed) simp
  ultimately show "\<forall>i\<in>set (IssueList r). IssueName i = ''malformed line'' \<longrightarrow> fromNoEqualsCheck i"
    by (simp add: list_all_iff malformedFromNoEquals_def)
qed

theorem ParseWithIssues_malformed_only_without_equals_witness:
  "Contains (TrimSpace ''A=B=C'') ''='' \<and> SplitN (TrimSpace ''A=B=C'') ''='' 2 = [''A'', ''B=C''] \<and>
   length (SplitN (TrimSpace ''A=B=C'') ''='' 2) = 2 \<and>
   ParseWithIssues (\<lambda>name. Opens [''NO EQUALS'', ''A=B=C''] None) ''.env'' =
     Inr \<lparr>IssueList =
            [NewIssue ''malformed line'' ''NO EQUALS'' ''.env'' 1 1
               [''Each line should be in KEY=VALUE format'', ''Use # for comments'',
                ''Check for missing equals sign'']],
          Vars = [\<lparr>Key = ''A'', Value = ''B=C'', Line = 2\<rparr>]\<rparr> \<and>
   fromNoEqualsCheck
     (NewIssue ''malformed line'' ''NO EQUALS'' ''.env'' 1 1
        [''Each line should be in KEY=VALUE format'', ''Use # for comments'',
         ''Check for missing equals sign''])"
proof -
  have t: "TrimSpace ''A=B=C'' = ''A=B=C''"
    by (simp add: TrimSpace_def whiteSpace_def HasPrefix_def)
  have c: "Contains (TrimSpace ''A=B=C'') ''=''"
    by (simp add: t Contains_def HasPrefix_def)
  have s: "SplitN (TrimSpace ''A=B=C'') ''='' 2 = [''A'', ''B=C'']"
    by (simp add: t SplitN_def HasPrefix_def)
  have p: "ParseWithIssues (\<lambda>name. Opens [''NO EQUALS'', ''A=B=C''] None) ''.env'' =
     Inr \<lparr>IssueList =
            [NewIssue ''malformed line'' ''NO EQUALS'' ''.env'' 1 1
               [''Each line should be in KEY=VALUE format'', ''Use # for comments'',
                ''Check for missing equals sign'']],
          Vars = [\<lparr>Key = ''A'', Value = ''B=C'', Line = 2\<rparr>]\<rparr>"
    by (simp add: ParseWithIssues_def TrimSpace_def whiteSpace_def HasPrefix_def Contains_def
          SplitN_def Let_def)
  show ?thesis
    using ParseWithIssues_malformed_only_without_equals
            [of "''A=B=C''" "\<lambda>name. Opens [''NO EQUALS'', ''A=B=C''] None" "''.env''"
               "\<lparr>IssueList =
                  [NewIssue ''malformed line'' ''NO EQUALS'' ''.env'' 1 1
                     [''Each line should be in KEY=VALUE format'', ''Use # for comments'',
                      ''Check for missing equals sign'']],
                 Vars = [\<lparr>Key = ''A'', Value = ''B=C'', Line = 2\<rparr>]\<rparr>"]
          c s p
    by (simp add: NewIssue_def)
qed

section \<open>Properties of float64\<close>

lemma powi_nat: "0 \<le> k \<Longrightarrow> (2::rat) powi k = 2 ^ nat k"
  by (simp add: power_int_def)

lemma bitlen_bounds_rat:
  assumes "0 < p"
  shows "(2::rat) powi (bitlen p - 1) \<le> of_int p" and "of_int p < (2::rat) powi bitlen p"
proof -
  from assms have b: "1 \<le> bitlen p"
    by (auto simp: bitlen_alt_def)
  from bitlen_bounds[OF assms] have l: "2 ^ nat (bitlen p - 1) \<le> p" and u: "p < 2 ^ nat (bitlen p)"
    by simp_all
  from l have "(of_int (2 ^ nat (bitlen p - 1)) :: rat) \<le> of_int p"
    by (simp only: of_int_le_iff)
  then show "(2::rat) powi (bitlen p - 1) \<le> of_int p"
    using b by (simp add: powi_nat)
  from u have "(of_int p :: rat) < of_int (2 ^ nat (bitlen p))"
    by (simp only: of_int_less_iff)
  then show "of_int p < (2::rat) powi bitlen p"
    using b by (simp add: powi_nat)
qed

lemma exponentOf_bounds:
  assumes "x \<noteq> 0"
  shows "2 powi exponentOf x \<le> \<bar>x\<bar> \<and> \<bar>x\<bar> < 2 powi (exponentOf x + 1)"
proof -
  obtain p q where pq: "quotient_of \<bar>x\<bar> = (p, q)"
    by (cases "quotient_of \<bar>x\<bar>")
  then have q: "0 < q" and x: "\<bar>x\<bar> = of_int p / of_int q"
    by (simp_all add: quotient_of_denom_pos quotient_of_div)
  from assms have "0 < \<bar>x\<bar>" by simp
  then have "0 < (of_int p :: rat) / of_int q" by (simp only: x)
  with q have p: "0 < p"
    by (simp add: zero_less_divide_iff)
  let ?d = "bitlen p - bitlen q"
  have lo: "(2::rat) powi (?d - 1) < \<bar>x\<bar>"
  proof -
    have "(2::rat) powi (?d - 1) = 2 powi (bitlen p - 1) / 2 powi bitlen q"
      by (simp add: power_int_diff)
    also have "\<dots> \<le> of_int p / 2 powi bitlen q"
      using bitlen_bounds_rat(1)[OF p] by (simp add: divide_right_mono)
    also have "\<dots> < of_int p / of_int q"
      using bitlen_bounds_rat(2)[OF q] p q by (intro frac_less2) simp_all
    finally show ?thesis by (simp add: x)
  qed
  have hi: "\<bar>x\<bar> < (2::rat) powi (?d + 1)"
  proof -
    have "of_int p / of_int q < (2::rat) powi bitlen p / of_int q"
      using bitlen_bounds_rat(2)[OF p] q by (simp add: divide_strict_right_mono)
    also have "\<dots> \<le> 2 powi bitlen p / 2 powi (bitlen q - 1)"
      using bitlen_bounds_rat(1)[OF q] by (intro frac_le) simp_all
    also have "\<dots> = 2 powi (?d + 1)"
      by (simp add: power_int_diff power_int_add)
    finally show ?thesis by (simp add: x)
  qed
  show ?thesis
  proof (cases "2 powi ?d \<le> \<bar>x\<bar>")
    case True
    then have "exponentOf x = ?d"
      by (simp add: exponentOf_def pq)
    with True hi show ?thesis by simp
  next
    case False
    then have "exponentOf x = ?d - 1"
      by (simp add: exponentOf_def pq)
    with False lo show ?thesis by simp
  qed
qed

lemma roundHalfEven_error: "\<bar>of_int (roundHalfEven m) - m\<bar> \<le> 1 / 2"
proof -
  have "of_int \<lfloor>m\<rfloor> \<le> m" and "m < of_int \<lfloor>m\<rfloor> + 1"
    by linarith+
  then show ?thesis
    unfolding roundHalfEven_def Let_def by (auto simp: abs_le_iff)
qed

text \<open>
  The constants of the scanner, and the sums and differences that the confidence
  heuristic can reach, evaluated.
\<close>

lemma round64_literals:
  "round64 (5 / 10) = Finite (1 / 2)"
  "round64 (1 / 2) = Finite (1 / 2)"
  "round64 (1 / 5) = Finite (3602879701896397 / 18014398509481984)"
  "round64 (3 / 10) = Finite (5404319552844595 / 18014398509481984)"
  "round64 (2 / 10) = Finite (3602879701896397 / 18014398509481984)"
  "round64 (7 / 10) = Finite (3152519739159347 / 4503599627370496)"
  "round64 (9 / 10) = Finite (8106479329266893 / 9007199254740992)"
  "round64 1 = Finite 1"
  "round64 0 = Finite 0"
  by code_simp+

lemma confidence_steps:
  "fadd (Finite (3602879701896397 / 18014398509481984))
     (Finite (3602879701896397 / 18014398509481984)) =
   Finite (3602879701896397 / 9007199254740992)"
  "fadd (Finite (7205759403792793 / 18014398509481984))
     (Finite (3602879701896397 / 18014398509481984)) =
   Finite (5404319552844595 / 9007199254740992)"
  "fadd (Finite (3602879701896397 / 9007199254740992))
     (Finite (3602879701896397 / 18014398509481984)) =
   Finite (1351079888211149 / 2251799813685248)"
  "fsub (Finite (1 / 2))
     (Finite (5404319552844595 / 18014398509481984)) =
   Finite (3602879701896397 / 18014398509481984)"
  "fadd (Finite (1 / 2))
     (Finite (3602879701896397 / 18014398509481984)) =
   Finite (3152519739159347 / 4503599627370496)"
  "fadd (Finite (1 / 2))
     (Finite (5404319552844595 / 18014398509481984)) =
   Finite (3602879701896397 / 4503599627370496)"
  "fadd (Finite (5404319552844595 / 9007199254740992))
     (Finite (3602879701896397 / 18014398509481984)) =
   Finite (3602879701896397 / 4503599627370496)"
  "fsub (Finite (3152519739159347 / 4503599627370496))
     (Finite (5404319552844595 / 18014398509481984)) =
   Finite (7205759403792793 / 18014398509481984)"
  "fadd (Finite (3152519739159347 / 4503599627370496))
     (Finite (3602879701896397 / 18014398509481984)) =
   Finite (2026619832316723 / 2251799813685248)"
  "fsub (Finite (3602879701896397 / 4503599627370496))
     (Finite (5404319552844595 / 18014398509481984)) =
   Finite (1 / 2)"
  "fadd (Finite (3602879701896397 / 4503599627370496))
     (Finite (3602879701896397 / 18014398509481984)) =
   Finite 1"
  "fadd (Finite (2026619832316723 / 2251799813685248))
     (Finite (3602879701896397 / 18014398509481984)) =
   Finite (4953959590107545 / 4503599627370496)"
  "fsub (Finite 1)
     (Finite (5404319552844595 / 18014398509481984)) =
   Finite (3152519739159347 / 4503599627370496)"
  "fadd (Finite 1)
     (Finite (3602879701896397 / 18014398509481984)) =
   Finite (5404319552844595 / 4503599627370496)"
  "fadd (Finite (5404319552844595 / 4503599627370496))
     (Finite (3602879701896397 / 18014398509481984)) =
   Finite (3152519739159347 / 2251799813685248)"
  by code_simp+

section \<open>Properties of the scanner\<close>

lemma commonLoop_once:
  "commonLoop upperName names confidence =
     (if \<exists>common\<in>set names. Contains upperName common
      then fadd confidence (round64 (2 / 10)) else confidence)"
  by (induction names) auto

lemma contextMarkers_ex:
  "(Contains l ''process.env'' \<or> Contains l ''os.getenv'' \<or> Contains l ''os.environ'' \<or>
    Contains l ''$env:'' \<or> Contains l ''${'') =
   (\<exists>marker\<in>set contextMarkers. Contains l marker)"
  by (simp add: contextMarkers_def)

text \<open>The confidence is a function of the outcomes of the five tests.\<close>

lemma calculateConfidence_confidenceFor:
  "calculateConfidence cm varName line pattern =
     confidenceFor (toUpper cm varName = varName \<and> 1 < length varName)
       (Contains varName ''_'') (length varName \<le> 2)
       (\<exists>common\<in>set commonEnvVars. Contains (toUpper cm varName) common)
       (\<exists>marker\<in>set contextMarkers. Contains (toLower cm line) marker)"
  by (simp only: calculateConfidence_def confidenceFor_def commonLoop_once contextMarkers_ex
        Let_def)

text \<open>The thirty-two values of the confidence.\<close>

lemma confidenceFor_values:
  "confidenceFor False False False False False = Finite (1 / 2)"
  "confidenceFor False False False False True = Finite (3152519739159347 / 4503599627370496)"
  "confidenceFor False False False True False = Finite (3152519739159347 / 4503599627370496)"
  "confidenceFor False False False True True = Finite (2026619832316723 / 2251799813685248)"
  "confidenceFor False False True False False = Finite (3602879701896397 / 18014398509481984)"
  "confidenceFor False False True False True = Finite (3602879701896397 / 9007199254740992)"
  "confidenceFor False False True True False = Finite (3602879701896397 / 9007199254740992)"
  "confidenceFor False False True True True = Finite (1351079888211149 / 2251799813685248)"
  "confidenceFor False True False False False = Finite (3152519739159347 / 4503599627370496)"
  "confidenceFor False True False False True = Finite (2026619832316723 / 2251799813685248)"
  "confidenceFor False True False True False = Finite (2026619832316723 / 2251799813685248)"
  "confidenceFor False True False True True = Finite 1"
  "confidenceFor False True True False False = Finite (7205759403792793 / 18014398509481984)"
  "confidenceFor False True True False True = Finite (5404319552844595 / 9007199254740992)"
  "confidenceFor False True True True False = Finite (5404319552844595 / 9007199254740992)"
  "confidenceFor False True True True True = Finite (3602879701896397 / 4503599627370496)"
  "confidenceFor True False False False False = Finite (3602879701896397 / 4503599627370496)"
  "confidenceFor True False False False True = Finite 1"
  "confidenceFor True False False True False = Finite 1"
  "confidenceFor True False False True True = Finite 1"
  "confidenceFor True False True False False = Finite (1 / 2)"
  "confidenceFor True False True False True = Finite (3152519739159347 / 4503599627370496)"
  "confidenceFor True False True True False = Finite (3152519739159347 / 4503599627370496)"
  "confidenceFor True False True True True = Finite (2026619832316723 / 2251799813685248)"
  "confidenceFor True True False False False = Finite 1"
  "confidenceFor True True False False True = Finite 1"
  "confidenceFor True True False True False = Finite 1"
  "confidenceFor True True False True True = Finite 1"
  "confidenceFor True True True False False = Finite (3152519739159347 / 4503599627370496)"
  "confidenceFor True True True False True = Finite (2026619832316723 / 2251799813685248)"
  "confidenceFor True True True True False = Finite (2026619832316723 / 2251799813685248)"
  "confidenceFor True True True True True = Finite 1"
  by (simp_all add: confidenceFor_def Let_def round64_literals confidence_steps del: fadd.simps)

lemma confidenceFor_close:
  "case confidenceFor b1 b2 b3 b4 b5 of
     Finite r \<Rightarrow>
       0 \<le> r \<and> r \<le> 1 \<and>
       \<bar>r - clamp01 (5 / 10 + (if b1 then 3 / 10 else 0) + (if b2 then 2 / 10 else 0)
             - (if b3 then 3 / 10 else 0) + (if b4 then 2 / 10 else 0)
             + (if b5 then 2 / 10 else 0))\<bar> \<le> 1 / 2 ^ 53
   | _ \<Rightarrow> False"
  by (cases b1; cases b2; cases b3; cases b4; cases b5)
     (simp_all add: confidenceFor_values clamp01_def)

lemma confidenceFor_mono:
  "(b1 \<longrightarrow> c1) \<Longrightarrow> (b4 \<longrightarrow> c4) \<Longrightarrow>
   fle (confidenceFor b1 b2 b3 b4 b5) (confidenceFor c1 True False c4 b5)"
  by (cases b1; cases b2; cases b3; cases b4; cases b5; cases c1; cases c4)
     (simp_all add: confidenceFor_values)

lemma HasPrefix_append: "HasPrefix s x \<Longrightarrow> HasPrefix (s @ t) x"
  unfolding HasPrefix_def
  by (metis append_eq_conv_conj append_assoc append_take_drop_id)

lemma Contains_append_left: "Contains s x \<Longrightarrow> Contains (s @ t) x"
  unfolding Contains_def
proof (induction s)
  case Nil
  then show ?case by (cases t) (auto simp: HasPrefix_def split: if_splits)
next
  case (Cons c s)
  then show ?case
    using HasPrefix_append[of "c # s" x t] by (auto split: if_splits)
qed

lemma Contains_append_right: "Contains t x \<Longrightarrow> Contains (s @ t) x"
  unfolding Contains_def by (induction s) auto

lemma ToUpper_KEY: "ToUpper (s @ ''_KEY'') = ToUpper s @ ''_KEY''"
  by (simp add: ToUpper_def upperChar_def isLowerAZ_def)

lemma flags_A_underscore:
  "toUpper asciiCase ''A_'' = ''A_''"
  "Contains ''A_'' ''_''"
  "\<not> (\<exists>common\<in>set commonEnvVars. Contains ''A_'' common)"
  "\<exists>marker\<in>set contextMarkers. Contains (toLower asciiCase ''echo ${A_}'') marker"
  by (simp_all add: asciiCase_def ToUpper_def ToLower_def upperChar_def lowerChar_def
        isLowerAZ_def isUpperAZ_def Contains_def HasPrefix_def commonEnvVars_def
        contextMarkers_def)

text \<open>
  C5. For every candidate name, source line and pattern, the computed confidence is the
  value in \<open>float64\<close> of the sum of 0.5, of 0.3 if the name is its own upper-case form
  and longer than one character, of 0.2 if the name contains an underscore, of -0.3 if
  the name has at most two characters, of 0.2 (once) if the upper-case name contains one
  of the ten common names, and of 0.2 if the lower-case line contains one of the
  contextual markers, taken in this order with each sum rounded, then cut to the
  interval from 0 to 1. It is a finite number of that interval, and it differs from
  the exact value of the sum, cut to the interval, by at most \<open>2\<^sup>-\<^sup>5\<^sup>3\<close>.
\<close>

theorem calculateConfidence_rounded_formula:
  "calculateConfidence cm varName line pattern =
     confidenceFor (toUpper cm varName = varName \<and> 1 < length varName)
       (Contains varName ''_'') (length varName \<le> 2)
       (\<exists>common\<in>set commonEnvVars. Contains (toUpper cm varName) common)
       (\<exists>marker\<in>set contextMarkers. Contains (toLower cm line) marker) \<and>
   (\<exists>r. calculateConfidence cm varName line pattern = Finite r \<and> 0 \<le> r \<and> r \<le> 1 \<and>
      \<bar>r - clamp01
         (5 / 10
          + (if toUpper cm varName = varName \<and> 1 < length varName then 3 / 10 else 0)
          + (if Contains varName ''_'' then 2 / 10 else 0)
          - (if length varName \<le> 2 then 3 / 10 else 0)
          + (if \<exists>common\<in>set commonEnvVars. Contains (toUpper cm varName) common
             then 2 / 10 else 0)
          + (if \<exists>marker\<in>set contextMarkers. Contains (toLower cm line) marker
             then 2 / 10 else 0))\<bar> \<le> 1 / 2 ^ 53) \<and>
   length commonEnvVars = 10"
proof -
  let ?b1 = "toUpper cm varName = varName \<and> 1 < length varName"
  let ?b2 = "Contains varName ''_''"
  let ?b3 = "length varName \<le> 2"
  let ?b4 = "\<exists>common\<in>set commonEnvVars. Contains (toUpper cm varName) common"
  let ?b5 = "\<exists>marker\<in>set contextMarkers. Contains (toLower cm line) marker"
  have c: "calculateConfidence cm varName line pattern = confidenceFor ?b1 ?b2 ?b3 ?b4 ?b5"
    by (rule calculateConfidence_confidenceFor)
  show ?thesis
    using confidenceFor_close[of ?b1 ?b2 ?b3 ?b4 ?b5]
    unfolding c by (cases "confidenceFor ?b1 ?b2 ?b3 ?b4 ?b5") (simp_all add: commonEnvVars_def)
qed

theorem calculateConfidence_rounded_formula_witness:
  "calculateConfidence asciiCase ''A_'' ''echo ${A_}'' shellBraces =
     confidenceFor True True True False True \<and>
   confidenceFor True True True False True = Finite (2026619832316723 / 2251799813685248) \<and>
   length commonEnvVars = 10"
  using calculateConfidence_rounded_formula[of asciiCase "''A_''" "''echo ${A_}''" shellBraces]
  by (simp add: flags_A_underscore confidenceFor_values)

text \<open>
  The name \<open>A_\<close> on the line \<open>echo ${A_}\<close>: the exact sum is
  \<open>0.5 + 0.3 + 0.2 - 0.3 + 0.2 = 0.9\<close>; the computed confidence is the number below
  \<open>0.9\<close> that is written \<open>0.8999999999999999\<close>, which is neither \<open>0.9\<close> nor the value of
  \<open>float64\<close> nearest to it.
\<close>

theorem calculateConfidence_rounding_counterexample:
  "calculateConfidence asciiCase ''A_'' ''echo ${A_}'' shellBraces =
     Finite (2026619832316723 / 2251799813685248) \<and>
   clamp01 (confidenceSum asciiCase ''A_'' ''echo ${A_}'') = 9 / 10 \<and>
   calculateConfidence asciiCase ''A_'' ''echo ${A_}'' shellBraces \<noteq>
     Finite (clamp01 (confidenceSum asciiCase ''A_'' ''echo ${A_}'')) \<and>
   calculateConfidence asciiCase ''A_'' ''echo ${A_}'' shellBraces \<noteq>
     round64 (clamp01 (confidenceSum asciiCase ''A_'' ''echo ${A_}''))"
proof -
  have v: "calculateConfidence asciiCase ''A_'' ''echo ${A_}'' shellBraces =
      Finite (2026619832316723 / 2251799813685248)"
    by (simp add: calculateConfidence_confidenceFor flags_A_underscore confidenceFor_values)
  have s: "clamp01 (confidenceSum asciiCase ''A_'' ''echo ${A_}'') = 9 / 10"
    by (simp add: confidenceSum_def flags_A_underscore clamp01_def)
  show ?thesis
    unfolding v s by (simp add: round64_literals)
qed

text \<open>
  C6. Appending \<open>_KEY\<close> to a candidate name, with the same line and pattern, never gives
  a smaller confidence. The hypothesis is a property of \<open>strings.ToUpper\<close>: it maps a
  string code point by code point and leaves \<open>_KEY\<close> as it is, so the upper-case form of
  the longer name is the upper-case form of the name followed by \<open>_KEY\<close>.
\<close>

theorem calculateConfidence_KEY_monotone:
  assumes "toUpper cm (varName @ ''_KEY'') = toUpper cm varName @ ''_KEY''"
  shows "fle (calculateConfidence cm varName line pattern)
           (calculateConfidence cm (varName @ ''_KEY'') line pattern)"
proof -
  have u: "Contains (varName @ ''_KEY'') ''_''"
    by (rule Contains_append_right) (simp add: Contains_def HasPrefix_def)
  have l: "\<not> length (varName @ ''_KEY'') \<le> 2"
    by simp
  have a: "toUpper cm varName = varName \<and> 1 < length varName \<longrightarrow>
           toUpper cm (varName @ ''_KEY'') = varName @ ''_KEY'' \<and>
           1 < length (varName @ ''_KEY'')"
    using assms by simp
  have c: "(\<exists>common\<in>set commonEnvVars. Contains (toUpper cm varName) common) \<longrightarrow>
           (\<exists>common\<in>set commonEnvVars. Contains (toUpper cm (varName @ ''_KEY'')) common)"
    unfolding assms by (blast intro: Contains_append_left)
  show ?thesis
    unfolding calculateConfidence_confidenceFor
    using confidenceFor_mono[OF a c] u l by simp
qed

theorem calculateConfidence_KEY_monotone_witness:
  "toUpper asciiCase (''db'' @ ''_KEY'') = toUpper asciiCase ''db'' @ ''_KEY'' \<and>
   fle (calculateConfidence asciiCase ''db'' ''x := 1'' goGetenv)
     (calculateConfidence asciiCase (''db'' @ ''_KEY'') ''x := 1'' goGetenv)"
proof -
  have h: "toUpper asciiCase (''db'' @ ''_KEY'') = toUpper asciiCase ''db'' @ ''_KEY''"
    unfolding asciiCase_def by (simp add: ToUpper_KEY del: append.simps)
  show ?thesis
    using h calculateConfidence_KEY_monotone[OF h, of "''x := 1''" goGetenv] by blast
qed

lemma foldl_total:
  "foldl (\<lambda>total usage. fadd total (Confidence usage)) a usages =
   foldl fadd a (map Confidence usages)"
  by (simp add: foldl_map)

lemma requiredLoop_filter:
  "requiredLoop c n kvs required =
     required @ map fst (filter (\<lambda>(varName, usages). qualifies c n usages) kvs)"
  by (induction kvs arbitrary: required)
     (auto simp: Let_def foldl_total qualifies_def float64Mean_def)

lemma rangeMap_set:
  "iterationOrder m ks \<Longrightarrow> set (rangeMap m ks) = {(k, v). m k = Some v}"
  by (force simp: iterationOrder_def rangeMap_def map_filter_def image_iff)

lemma rangeMap_distinct:
  "distinct ks \<Longrightarrow> distinct (map fst (rangeMap m ks))"
  by (induction ks) (force simp: rangeMap_def map_filter_def image_iff split: option.splits)+

lemma GetRequiredVariables_set:
  assumes "iterationOrder (Variables sr) order"
  shows "set (GetRequiredVariables order sr c n) =
     {varName. \<exists>usages. Variables sr varName = Some usages \<and> qualifies c n usages}"
  by (force simp: GetRequiredVariables_def requiredLoop_filter rangeMap_set[OF assms])

text \<open>
  C7. \<open>GetRequiredVariables\<close> returns, each once, exactly the variable names whose
  usage list has at least \<open>minUsages\<close> entries and whose mean confidence as computed in
  \<open>float64\<close> (the confidences added in order from 0.0, each sum rounded, the total
  divided by the number of usages and rounded) is at least \<open>minConfidence\<close>; two calls
  with the same thresholds on the same result return the same set of names, in whatever
  orders the map is ranged over.
\<close>

theorem GetRequiredVariables_float64_mean:
  assumes "iterationOrder (Variables sr) order"
  shows "set (GetRequiredVariables order sr minConfidence minUsages) =
       {varName. \<exists>usages. Variables sr varName = Some usages \<and>
          minUsages \<le> int (length usages) \<and>
          fle minConfidence (float64Mean usages)} \<and>
     distinct (GetRequiredVariables order sr minConfidence minUsages) \<and>
     (\<forall>order'. iterationOrder (Variables sr) order' \<longrightarrow>
        set (GetRequiredVariables order' sr minConfidence minUsages) =
        set (GetRequiredVariables order sr minConfidence minUsages))"
proof (intro conjI allI impI)
  show "set (GetRequiredVariables order sr minConfidence minUsages) =
       {varName. \<exists>usages. Variables sr varName = Some usages \<and>
          minUsages \<le> int (length usages) \<and>
          fle minConfidence (float64Mean usages)}"
    using GetRequiredVariables_set[OF assms] by (simp add: qualifies_def)
next
  from assms have "distinct order" by (simp add: iterationOrder_def)
  then have "distinct (map fst (rangeMap (Variables sr) order))"
    by (rule rangeMap_distinct)
  then show "distinct (GetRequiredVariables order sr minConfidence minUsages)"
    by (simp add: GetRequiredVariables_def requiredLoop_filter distinct_map_filter)
next
  fix order'
  assume "iterationOrder (Variables sr) order'"
  then show "set (GetRequiredVariables order' sr minConfidence minUsages) =
        set (GetRequiredVariables order sr minConfidence minUsages)"
    using GetRequiredVariables_set[OF assms] by (simp add: GetRequiredVariables_set)
qed

lemma float64Mean_examples:
  "float64Mean [exampleUsage ''PORT'' (Finite 1), exampleUsage ''PORT'' (Finite (1 / 2))] =
     Finite (3 / 4)"
  "float64Mean [exampleUsage ''DB'' (Finite (1 / 2))] = Finite (1 / 2)"
  "float64Mean [exampleUsage ''X'' (Finite (1 / 4)), exampleUsage ''X'' (Finite (1 / 4))] =
     Finite (1 / 4)"
  "float64Mean [ciUsage 1, ciUsage 2, ciUsage 3] =
     Finite (6305039478318693 / 9007199254740992)"
  by code_simp+

theorem GetRequiredVariables_float64_mean_witness:
  "GetRequiredVariables [''X'', ''PORT'', ''DB''] exampleResult (round64 (7 / 10)) 2 = [''PORT''] \<and>
   set (GetRequiredVariables [''DB'', ''PORT'', ''X''] exampleResult (round64 (7 / 10)) 2) =
     {''PORT''} \<and>
   {varName. \<exists>usages. Variables exampleResult varName = Some usages \<and>
          2 \<le> int (length usages) \<and> fle (round64 (7 / 10)) (float64Mean usages)} = {''PORT''}"
proof -
  have o: "iterationOrder (Variables exampleResult) [''X'', ''PORT'', ''DB'']"
    by (auto simp: iterationOrder_def exampleResult_def)
  have o': "iterationOrder (Variables exampleResult) [''DB'', ''PORT'', ''X'']"
    by (auto simp: iterationOrder_def exampleResult_def)
  have e: "GetRequiredVariables [''X'', ''PORT'', ''DB''] exampleResult (round64 (7 / 10)) 2 =
      [''PORT'']"
    by (simp add: GetRequiredVariables_def requiredLoop_filter qualifies_def rangeMap_def
          List.map_filter_simps exampleResult_def float64Mean_examples round64_literals)
  show ?thesis
    using GetRequiredVariables_float64_mean[OF o, of "round64 (7 / 10)" 2] o' e by auto
qed

text \<open>
  Three usages of \<open>CI\<close>, each with the confidence \<open>0.7\<close>, and the thresholds \<open>0.7\<close> and 1
  (the defaults of the command line): the arithmetic mean of the three confidences is
  the confidence itself, which is the threshold, but the sum computed in \<open>float64\<close> is
  \<open>2.0999999999999996\<close> and its third \<open>0.6999999999999998\<close>, below the threshold; the
  name is not returned.
\<close>

theorem GetRequiredVariables_rounding_counterexample:
  "iterationOrder (Variables ciResult) [''CI''] \<and>
   Variables ciResult ''CI'' = Some [ciUsage 1, ciUsage 2, ciUsage 3] \<and>
   1 \<le> int (length [ciUsage 1, ciUsage 2, ciUsage 3]) \<and>
   round64 (7 / 10) = Finite (3152519739159347 / 4503599627370496) \<and>
   arithmeticMean [ciUsage 1, ciUsage 2, ciUsage 3] = 3152519739159347 / 4503599627370496 \<and>
   float64Mean [ciUsage 1, ciUsage 2, ciUsage 3] =
     Finite (6305039478318693 / 9007199254740992) \<and>
   GetRequiredVariables [''CI''] ciResult (round64 (7 / 10)) 1 = []"
proof -
  have o: "iterationOrder (Variables ciResult) [''CI'']"
    by (auto simp: iterationOrder_def ciResult_def)
  have m: "arithmeticMean [ciUsage 1, ciUsage 2, ciUsage 3] =
      3152519739159347 / 4503599627370496"
    by (simp add: arithmeticMean_def ciUsage_def)
  have e: "GetRequiredVariables [''CI''] ciResult (round64 (7 / 10)) 1 = []"
    by (simp add: GetRequiredVariables_def requiredLoop_filter qualifies_def rangeMap_def
          List.map_filter_simps ciResult_def float64Mean_examples round64_literals)
  show ?thesis
    using o m e by (simp add: ciResult_def float64Mean_examples round64_literals)
qed

lemma bucketsMatch_empty: "bucketsMatch Map.empty"
  by (simp add: bucketsMatch_def)

lemma bucketsMatch_usagesOf:
  "bucketsMatch vars \<Longrightarrow> usage \<in> set (usagesOf vars varName) \<Longrightarrow> Variable usage = varName"
  by (cases "vars varName") (auto simp: bucketsMatch_def usagesOf_def)

lemma bucketsMatch_append:
  assumes "bucketsMatch vars" and "\<forall>usage\<in>set usages. Variable usage = varName"
  shows "bucketsMatch (vars(varName \<mapsto> usagesOf vars varName @ usages))"
  unfolding bucketsMatch_def
proof (intro allI impI ballI)
  fix k us u
  assume k: "(vars(varName \<mapsto> usagesOf vars varName @ usages)) k = Some us" and u: "u \<in> set us"
  show "Variable u = k"
  proof (cases "k = varName")
    case True
    with k u have "u \<in> set (usagesOf vars varName) \<or> u \<in> set usages" by auto
    then show ?thesis
      using True assms bucketsMatch_usagesOf by blast
  next
    case False
    with k have "vars k = Some us" by simp
    with assms(1) u show ?thesis by (auto simp: bucketsMatch_def)
  qed
qed

lemma scanMatches_buckets:
  "bucketsMatch vars \<Longrightarrow>
   bucketsMatch (scanMatches cm filePath lineNum line pattern matches vars)"
  by (induction matches arbitrary: vars) (simp_all add: Let_def bucketsMatch_append)

lemma scanPatterns_buckets:
  "bucketsMatch vars \<Longrightarrow> bucketsMatch (scanPatterns cm filePath lineNum line pats vars)"
  by (induction pats arbitrary: vars) (simp_all add: scanMatches_buckets)

lemma scanLines_buckets:
  "bucketsMatch vars \<Longrightarrow> bucketsMatch (scanLines cm ps filePath lineNum lines vars)"
  by (induction lines arbitrary: lineNum vars) (simp_all add: Let_def scanPatterns_buckets)

lemma scanFile_buckets:
  "scanFile cm ps fs filePath = Inr fileResult \<Longrightarrow> bucketsMatch (Variables fileResult)"
  by (auto simp: scanFile_def scanLines_buckets bucketsMatch_empty split: fileRead.splits)

lemma mergeVariables_buckets:
  assumes "bucketsMatch resultVars" and "bucketsMatch fileVars"
  shows "bucketsMatch (mergeVariables resultVars fileVars)"
  unfolding bucketsMatch_def
proof (intro allI impI ballI)
  fix k us u
  assume k: "mergeVariables resultVars fileVars k = Some us" and u: "u \<in> set us"
  show "Variable u = k"
  proof (cases "fileVars k")
    case None
    with k have "resultVars k = Some us" by (simp add: mergeVariables_def)
    with assms(1) u show ?thesis by (auto simp: bucketsMatch_def)
  next
    case (Some fus)
    with k u have "u \<in> set (usagesOf resultVars k) \<or> u \<in> set fus"
      by (auto simp: mergeVariables_def)
    then show ?thesis
    proof
      assume "u \<in> set (usagesOf resultVars k)"
      then show ?thesis by (rule bucketsMatch_usagesOf[OF assms(1)])
    next
      assume "u \<in> set fus"
      with assms(2) Some show ?thesis by (simp add: bucketsMatch_def)
    qed
  qed
qed

lemma visit_buckets:
  assumes "bucketsMatch (Variables result)"
  shows "bucketsMatch (Variables (snd (visit cm ps fs path event result)))"
proof (cases event)
  case (VisitError err)
  then show ?thesis using assms by (simp add: visit_def)
next
  case (Visit d)
  show ?thesis
  proof (cases d)
    case True
    then show ?thesis using assms Visit by (simp add: visit_def)
  next
    case False
    show ?thesis
    proof (cases "scanFile cm ps fs path")
      case (Inl err)
      then show ?thesis using assms Visit False by (simp add: visit_def)
    next
      case (Inr fileResult)
      then show ?thesis
        using assms Visit False scanFile_buckets[OF Inr]
        by (simp add: visit_def mergeVariables_buckets)
    qed
  qed
qed

lemma walkNames_invariant:
  fixes fn :: "'s WalkFunc"
  assumes fn: "\<And>path event s. I s \<Longrightarrow> I (snd (fn path event s))"
  shows "(\<And>e s. e \<in> set entries \<Longrightarrow> I s \<Longrightarrow> I (snd (walk fn e s))) \<Longrightarrow> I s \<Longrightarrow>
         I (snd (walkNames fn entries s))"
proof (induction entries arbitrary: s)
  case Nil
  then show ?case by simp
next
  case (Cons e rest)
  have w: "I (snd (walk fn e s))" using Cons.prems by simp
  have r: "\<And>s'. I s' \<Longrightarrow> I (snd (walkNames fn rest s'))" using Cons by simp
  show ?case
    using w by (cases e) (simp_all add: case_prod_beta option.case_eq_if r)
qed

lemma walk_invariant:
  fixes fn :: "'s WalkFunc"
  assumes fn: "\<And>path event s. I s \<Longrightarrow> I (snd (fn path event s))"
  shows "I s \<Longrightarrow> I (snd (walk fn node s))"
proof (induction node arbitrary: s)
  case (Dir path entries)
  have "I (snd (walkNames fn entries (snd (fn path (Visit True) s))))"
    by (rule walkNames_invariant[where I = I]) (simp_all add: fn Dir)
  then show ?case
    using Dir.prems by (simp add: case_prod_beta option.case_eq_if fn)
qed (simp_all add: fn)

lemma ScanProject_buckets:
  "bucketsMatch (Variables (fst (ScanProject cm ps fs rootNode)))"
proof -
  let ?s0 = "\<lparr>Variables = Map.empty, Files = [], Errors = []\<rparr>"
  have "bucketsMatch (Variables (snd (walk (visit cm ps fs) rootNode ?s0)))"
    by (rule walk_invariant[where I = "\<lambda>s. bucketsMatch (Variables s)"])
       (simp_all add: visit_buckets bucketsMatch_empty)
  then show ?thesis
    by (auto simp: ScanProject_def Walk_def split: prod.splits option.splits walkError.splits)
qed

text \<open>The merge loop gives \<open>mergeVariables\<close> for every order of the passes.\<close>

lemma rangeMap_eq_map:
  "set ks \<subseteq> dom m \<Longrightarrow> rangeMap m ks = map (\<lambda>k. (k, the (m k))) ks"
  by (induction ks) (auto simp: rangeMap_def List.map_filter_simps)

lemma map_of_rangeMap:
  assumes "iterationOrder m ks"
  shows "map_of (rangeMap m ks) = m"
proof
  fix k
  from assms have s: "set ks = dom m" by (simp add: iterationOrder_def)
  then have "map_of (rangeMap m ks) k = ((Some \<circ> (\<lambda>k. the (m k))) |` set ks) k"
    by (simp add: rangeMap_eq_map map_of_map_restrict)
  also have "\<dots> = m k"
    using s by (cases "m k") (auto simp: restrict_map_def)
  finally show "map_of (rangeMap m ks) k = m k" .
qed

lemma mergeLoop_map_of:
  "distinct (map fst kvs) \<Longrightarrow>
   mergeLoop kvs resultVars =
     (\<lambda>k. case map_of kvs k of
        None \<Rightarrow> resultVars k
      | Some usages \<Rightarrow> Some (usagesOf resultVars k @ usages))"
proof (induction kvs arbitrary: resultVars)
  case Nil
  then show ?case by simp
next
  case (Cons kv kvs)
  obtain k0 us0 where kv: "kv = (k0, us0)" by (cases kv)
  from Cons.prems kv have n: "map_of kvs k0 = None" and d: "distinct (map fst kvs)"
    by (auto simp: map_of_eq_None_iff)
  show ?case
    unfolding kv mergeLoop.simps Cons.IH[OF d]
    by (rule ext) (auto simp: n usagesOf_def split: option.splits)
qed

lemma mergeLoop_mergeVariables:
  assumes "iterationOrder fileVars order"
  shows "mergeLoop (rangeMap fileVars order) resultVars = mergeVariables resultVars fileVars"
proof -
  from assms have "distinct (map fst (rangeMap fileVars order))"
    by (simp add: iterationOrder_def rangeMap_distinct)
  then show ?thesis
    by (simp add: mergeLoop_map_of map_of_rangeMap[OF assms] mergeVariables_def)
qed

lemma visit_answer:
  "fst (visit cm ps fs path event result) = None \<or>
   (fst (visit cm ps fs path event result) = Some SkipDir \<and> event = Visit True)"
  by (cases event; cases "scanFile cm ps fs path")
     (simp_all add: visit_def split: bool.splits)

lemma walkNames_visit_nil:
  assumes "\<And>e s. e \<in> set entries \<Longrightarrow>
             fst (walk (visit cm ps fs) e s) = None \<or>
             (fst (walk (visit cm ps fs) e s) = Some SkipDir \<and> isDir e)"
  shows "fst (walkNames (visit cm ps fs) entries s) = None"
  using assms
proof (induction entries arbitrary: s)
  case Nil
  then show ?case by simp
next
  case (Cons e rest)
  have r: "\<And>s'. fst (walkNames (visit cm ps fs) rest s') = None"
    using Cons by simp
  have w: "fst (walk (visit cm ps fs) e s) = None \<or>
           (fst (walk (visit cm ps fs) e s) = Some SkipDir \<and> isDir e)"
    using Cons.prems by simp
  show ?case
  proof (cases e)
    case (LstatFails path err)
    then show ?thesis
      using visit_answer[of cm ps fs path "VisitError err" s]
      by (simp add: case_prod_beta option.case_eq_if r)
  next
    case (RegularFile path)
    then show ?thesis
      using w by (auto simp add: case_prod_beta option.case_eq_if r simp del: walk.simps)
  next
    case (UnreadableDir path err)
    then show ?thesis
      using w by (auto simp add: case_prod_beta option.case_eq_if r simp del: walk.simps)
  next
    case (Dir path entries)
    then show ?thesis
      using w by (auto simp add: case_prod_beta option.case_eq_if r simp del: walk.simps)
  qed
qed

lemma walk_visit_answer:
  "fst (walk (visit cm ps fs) node s) = None \<or>
   (fst (walk (visit cm ps fs) node s) = Some SkipDir \<and> isDir node)"
proof (induction node arbitrary: s)
  case (LstatFails path err)
  then show ?case
    using visit_answer[of cm ps fs path "VisitError err" s] by simp
next
  case (RegularFile path)
  then show ?case
    using visit_answer[of cm ps fs path "Visit False" s] by simp
next
  case (UnreadableDir path err)
  then show ?case
    using visit_answer[of cm ps fs path "VisitError err" s] by simp
next
  case (Dir path entries)
  have "fst (walkNames (visit cm ps fs) entries s') = None" for s'
    by (rule walkNames_visit_nil) (rule Dir)
  then show ?case
    using visit_answer[of cm ps fs path "Visit True" s]
    by (auto simp add: case_prod_beta option.case_eq_if)
qed

text \<open>\<open>ScanProject\<close> never returns an error: the result is always handed back.\<close>

lemma ScanProject_no_error:
  "snd (ScanProject cm ps fs rootNode) = None"
  using walk_visit_answer[of cm ps fs rootNode "\<lparr>Variables = Map.empty, Files = [], Errors = []\<rparr>"]
  by (auto simp: ScanProject_def Walk_def case_prod_beta split: option.splits walkError.splits)

text \<open>
  A scanned file that opens and then fails to read: \<open>scanFile\<close> puts the error into the
  errors of the file's own result and returns no error, and \<open>ScanProject\<close> merges the
  variables and the file name of that result, not its errors.
\<close>

lemma scanFile_read_error:
  "fs path = Opens lines (Some err) \<Longrightarrow>
   \<exists>fileResult. scanFile cm ps fs path = Inr fileResult \<and> Errors fileResult = [err]"
  by (simp add: scanFile_def)

lemma ScanProject_read_error_dropped:
  assumes "fs path = Opens lines (Some err)" and "shouldScanFile ps path"
      and "\<not> list_ex (\<lambda>exclude. Contains dir exclude) (excludePaths ps)"
  shows "Errors (fst (ScanProject cm ps fs (Dir dir [RegularFile path]))) = [] \<and>
         Files (fst (ScanProject cm ps fs (Dir dir [RegularFile path]))) = [path]"
  using assms by (simp add: ScanProject_def Walk_def visit_def scanFile_def)

lemma calculateConfidence_PORT:
  "calculateConfidence asciiCase ''PORT'' ''port := os.Getenv(\"PORT\")'' goGetenv = Finite 1"
  by (simp add: calculateConfidence_confidenceFor confidenceFor_values asciiCase_def
        ToUpper_def ToLower_def upperChar_def lowerChar_def isLowerAZ_def isUpperAZ_def
        Contains_def HasPrefix_def commonEnvVars_def contextMarkers_def)

lemma goGetenv_matches:
  "FindAllStringSubmatch goGetenv ''port := os.Getenv(\"PORT\")'' =
     [[''os.Getenv(\"PORT\")'', ''PORT'']]"
  "PatternName goGetenv = ''Go os.Getenv''"
  by (simp_all add: goGetenv_def)

lemma TrimSpace_port:
  "TrimSpace ''port := os.Getenv(\"PORT\")'' = ''port := os.Getenv(\"PORT\")''"
  by (simp add: TrimSpace_def whiteSpace_def HasPrefix_def)

lemma scanLines_port:
  "scanLines asciiCase exampleScanner path 0 [''port := os.Getenv(\"PORT\")''] vars =
     vars(''PORT'' \<mapsto> usagesOf vars ''PORT'' @ [portUsage path])"
  by (simp add: exampleScanner_def goGetenv_matches TrimSpace_port calculateConfidence_PORT
        portUsage_def Let_def)

lemma scanFile_util:
  "scanFile asciiCase exampleScanner exampleFiles ''proj/util.go'' =
     Inr \<lparr>Variables = [''PORT'' \<mapsto> [portUsage ''proj/util.go'']], Files = [''proj/util.go''],
          Errors = []\<rparr>"
  by (simp add: scanFile_def exampleFiles_def scanLines_port usagesOf_def del: scanLines.simps)

lemma scanFile_main:
  "scanFile asciiCase exampleScanner exampleFiles ''proj/main.go'' =
     Inr \<lparr>Variables = [''PORT'' \<mapsto> [portUsage ''proj/main.go'']], Files = [''proj/main.go''],
          Errors = [tooLong]\<rparr>"
  by (simp add: scanFile_def exampleFiles_def scanLines_port usagesOf_def del: scanLines.simps)

lemma shouldScanFile_go:
  "shouldScanFile exampleScanner ''proj/util.go''"
  "shouldScanFile exampleScanner ''proj/main.go''"
  by (simp_all add: shouldScanFile_def exampleScanner_def Base_def Ext_def finalElement_def)

lemma not_excluded_proj:
  "\<not> list_ex (\<lambda>exclude. Contains ''proj'' exclude) (excludePaths exampleScanner)"
  by (simp add: exampleScanner_def Contains_def HasPrefix_def)

lemma ScanProject_two_files:
  "ScanProject asciiCase exampleScanner exampleFiles
     (Dir ''proj'' [RegularFile ''proj/main.go'', RegularFile ''proj/util.go'']) =
   (\<lparr>Variables = [''PORT'' \<mapsto> [portUsage ''proj/main.go'', portUsage ''proj/util.go'']],
     Files = [''proj/main.go'', ''proj/util.go''], Errors = []\<rparr>, None)"
  by (simp add: ScanProject_def Walk_def visit_def not_excluded_proj shouldScanFile_go
        scanFile_util scanFile_main)
     (auto simp: mergeVariables_def usagesOf_def fun_eq_iff)

text \<open>
  The scan result of the counterexample to C7 is what \<open>ScanProject\<close> returns for the
  project \<open>app\<close>.
\<close>

lemma calculateConfidence_CI:
  "calculateConfidence asciiCase ''CI'' ''const ci = process.env.CI'' nodeProcessEnv =
     Finite (3152519739159347 / 4503599627370496)"
  by (simp add: calculateConfidence_confidenceFor confidenceFor_values asciiCase_def
        ToUpper_def ToLower_def upperChar_def lowerChar_def isLowerAZ_def isUpperAZ_def
        Contains_def HasPrefix_def commonEnvVars_def contextMarkers_def)

lemma TrimSpace_ci:
  "TrimSpace ''const ci = process.env.CI'' = ''const ci = process.env.CI''"
  by (simp add: TrimSpace_def whiteSpace_def HasPrefix_def)

lemma nodeProcessEnv_matches:
  "FindAllStringSubmatch nodeProcessEnv ''const ci = process.env.CI'' =
     [[''process.env.CI'', ''CI'']]"
  "PatternName nodeProcessEnv = ''Node.js process.env''"
  by (simp_all add: nodeProcessEnv_def)

lemma scanPatterns_ci:
  "scanPatterns asciiCase path lineNum ''const ci = process.env.CI'' [nodeProcessEnv] vars =
     vars(''CI'' \<mapsto> usagesOf vars ''CI'' @
       [\<lparr>Variable = ''CI'', UsageFile = path, UsageLine = lineNum,
         Context = ''const ci = process.env.CI'', Pattern = ''Node.js process.env'',
         Confidence = Finite (3152519739159347 / 4503599627370496)\<rparr>])"
  by (simp add: nodeProcessEnv_matches calculateConfidence_CI TrimSpace_ci Let_def)

lemma ScanProject_ci:
  "ScanProject asciiCase nodeScanner nodeFiles (Dir ''app'' [RegularFile ''app/ci.js'']) =
     (ciResult, None)"
proof -
  have x: "\<not> list_ex (\<lambda>exclude. Contains ''app'' exclude) (excludePaths nodeScanner)"
    by (simp add: nodeScanner_def exampleScanner_def Contains_def HasPrefix_def)
  have s: "shouldScanFile nodeScanner ''app/ci.js''"
    by (simp add: shouldScanFile_def nodeScanner_def exampleScanner_def Base_def Ext_def
          finalElement_def)
  have f: "scanFile asciiCase nodeScanner nodeFiles ''app/ci.js'' = Inr ciResult"
    by (simp add: scanFile_def nodeFiles_def nodeScanner_def scanPatterns_ci usagesOf_def
          ciResult_def ciUsage_def del: scanPatterns.simps)
  have m: "mergeVariables Map.empty (Variables ciResult) = Variables ciResult"
    by (auto simp: mergeVariables_def usagesOf_def fun_eq_iff ciResult_def)
  show ?thesis
    by (simp add: ScanProject_def Walk_def visit_def x s f m) (simp add: ciResult_def)
qed

text \<open>The errors that are collected: a failed \<open>Lstat\<close>, an unreadable directory, a failed open.\<close>

lemma ScanProject_collects_access_errors:
  "Errors (fst (ScanProject asciiCase exampleScanner exampleFiles
     (Dir ''proj'' [LstatFails ''proj/a.go'' denied, Dir ''proj/bin'' [RegularFile ''proj/bin/x.go''],
        UnreadableDir ''proj/cfg'' denied, RegularFile ''proj/locked.go'',
        RegularFile ''proj/notes.txt'', RegularFile ''proj/util.go'']))) =
     [Error ''error accessing proj/a.go: permission denied'',
      Error ''error accessing proj/cfg: permission denied'',
      Error ''error scanning proj/locked.go: permission denied''] \<and>
   Files (fst (ScanProject asciiCase exampleScanner exampleFiles
     (Dir ''proj'' [LstatFails ''proj/a.go'' denied, Dir ''proj/bin'' [RegularFile ''proj/bin/x.go''],
        UnreadableDir ''proj/cfg'' denied, RegularFile ''proj/locked.go'',
        RegularFile ''proj/notes.txt'', RegularFile ''proj/util.go'']))) = [''proj/util.go'']"
  by (simp add: ScanProject_def Walk_def visit_def scanFile_def exampleFiles_def exampleScanner_def
        shouldScanFile_def Base_def Ext_def finalElement_def Contains_def HasPrefix_def
        ErrorfPath_def denied_def)

text \<open>
  C8. The claim that every error of a file is appended to the errors of the scan result
  fails for a read error after a successful open. For the project \<open>proj\<close> with the one
  file \<open>proj/main.go\<close>, whose reading stops with \<open>bufio.ErrTooLong\<close> after the first
  line: \<open>scanFile\<close> records the error in the errors of the file's result, and the result
  of \<open>ScanProject\<close> holds the usage found on the first line, lists the file as scanned,
  has no error in its errors, and comes with no error.
\<close>

theorem ScanProject_read_error_not_collected:
  "scanFile asciiCase exampleScanner exampleFiles ''proj/main.go'' =
     Inr \<lparr>Variables = [''PORT'' \<mapsto> [portUsage ''proj/main.go'']], Files = [''proj/main.go''],
          Errors = [tooLong]\<rparr> \<and>
   ScanProject asciiCase exampleScanner exampleFiles (Dir ''proj'' [RegularFile ''proj/main.go'']) =
     (\<lparr>Variables = [''PORT'' \<mapsto> [portUsage ''proj/main.go'']], Files = [''proj/main.go''],
       Errors = []\<rparr>, None)"
proof -
  have "ScanProject asciiCase exampleScanner exampleFiles
          (Dir ''proj'' [RegularFile ''proj/main.go'']) =
     (\<lparr>Variables = mergeVariables Map.empty [''PORT'' \<mapsto> [portUsage ''proj/main.go'']],
       Files = [''proj/main.go''], Errors = []\<rparr>, None)"
    by (simp add: ScanProject_def Walk_def visit_def not_excluded_proj shouldScanFile_go
          scanFile_main)
  moreover have "mergeVariables Map.empty [''PORT'' \<mapsto> [portUsage ''proj/main.go'']] =
      [''PORT'' \<mapsto> [portUsage ''proj/main.go'']]"
    by (auto simp: mergeVariables_def usagesOf_def fun_eq_iff)
  ultimately show ?thesis
    by (simp add: scanFile_main)
qed

text \<open>
  C9. In the result of scanning one file, and in the result of scanning a project
  (which merges the results of its files), every usage record stored under a key of the
  map of variables has that key as its variable.
\<close>

theorem scan_results_buckets_match:
  "(scanFile cm ps fs filePath = Inr fileResult \<longrightarrow> bucketsMatch (Variables fileResult)) \<and>
   bucketsMatch (Variables (fst (ScanProject cm ps fs rootNode)))"
  by (simp add: scanFile_buckets ScanProject_buckets)

theorem scan_results_buckets_match_witness:
  "scanFile asciiCase exampleScanner exampleFiles ''proj/util.go'' =
     Inr \<lparr>Variables = [''PORT'' \<mapsto> [portUsage ''proj/util.go'']], Files = [''proj/util.go''],
          Errors = []\<rparr> \<and>
   bucketsMatch [''PORT'' \<mapsto> [portUsage ''proj/util.go'']] \<and>
   Variables (fst (ScanProject asciiCase exampleScanner exampleFiles
     (Dir ''proj'' [RegularFile ''proj/main.go'', RegularFile ''proj/util.go'']))) =
     [''PORT'' \<mapsto> [portUsage ''proj/main.go'', portUsage ''proj/util.go'']] \<and>
   bucketsMatch [''PORT'' \<mapsto> [portUsage ''proj/main.go'', portUsage ''proj/util.go'']]"
  using scan_results_buckets_match[of asciiCase exampleScanner exampleFiles "''proj/util.go''"
          "\<lparr>Variables = [''PORT'' \<mapsto> [portUsage ''proj/util.go'']], Files = [''proj/util.go''],
            Errors = []\<rparr>"
          "Dir ''proj'' [RegularFile ''proj/main.go'', RegularFile ''proj/util.go'']"]
  by (simp add: scanFile_util ScanProject_two_files)

section \<open>Properties of the Security and Convention rules\<close>








text \<open>The cases of the test of \<open>convertCamelToSnake\<close> in the repository.\<close>

lemma convertCamelToSnake_tests:
  "map (convertCamelToSnake asciiCase)
     [''camelCase'', ''PascalCase'', ''databaseUrl'', ''HTTPSProxy'', ''XMLHttpRequest'',
      ''iPhone'', ''URLPath'', ''simpleword'', ''ALLCAPS'', []] =
     [''camel_case'', ''pascal_case'', ''database_url'', ''https_proxy'', ''xml_http_request'',
      ''i_phone'', ''url_path'', ''simpleword'', ''allcaps'', []]"
  by code_simp










end
